theory Spec2Isabelle
  imports Main "HOL-Library.Word"
begin

section \<open>JavaScript strings\<close>

text \<open>
  A JavaScript string is a sequence of UTF-16 code units. String literals of the source
  that are not ASCII are written as their code units; \<open>ascii\<close> embeds an ASCII literal.
\<close>

type_synonym jschar = "16 word"
type_synonym jstring = "jschar list"

definition ascii :: "string \<Rightarrow> jstring" where
  "ascii s = map of_char s"

text \<open>
  The characters matched by \<^verbatim>\<open>\s\<close> in a regular expression and stripped by
  \<^verbatim>\<open>String.prototype.trim\<close>: ECMAScript's WhiteSpace and LineTerminator.
\<close>

definition is_space :: "jschar \<Rightarrow> bool" where
  "is_space c = (c \<in> set [0x09, 0x0A, 0x0B, 0x0C, 0x0D, 0x20, 0xA0, 0x1680,
      0x2000, 0x2001, 0x2002, 0x2003, 0x2004, 0x2005, 0x2006, 0x2007, 0x2008, 0x2009,
      0x200A, 0x2028, 0x2029, 0x202F, 0x205F, 0x3000, 0xFEFF])"

text \<open>The class \<^verbatim>\<open>[\\/:*?"<>|\n\r]\<close> of \<^verbatim>\<open>fileSafe\<close>.\<close>

definition is_unsafe :: "jschar \<Rightarrow> bool" where
  "is_unsafe c = (c \<in> set [0x5C, 0x2F, 0x3A, 0x2A, 0x3F, 0x22, 0x3C, 0x3E, 0x7C, 0x0A, 0x0D])"

text \<open>\<^verbatim>\<open>trimStart\<close>, \<^verbatim>\<open>trimEnd\<close> and \<^verbatim>\<open>trim\<close>, which strips both ends.\<close>

definition trim_start :: "jstring \<Rightarrow> jstring" where
  "trim_start s = dropWhile is_space s"

definition trim_end :: "jstring \<Rightarrow> jstring" where
  "trim_end s = rev (dropWhile is_space (rev s))"

definition trim :: "jstring \<Rightarrow> jstring" where
  "trim s = trim_end (trim_start s)"

text \<open>
  \<^verbatim>\<open>s.replace(/[class]+/g, r)\<close>: scanning from the left, every match is a maximal run
  of characters of the class (the \<^verbatim>\<open>+\<close> is greedy) and is replaced by \<open>r\<close>.
\<close>

function replace_runs :: "('a \<Rightarrow> bool) \<Rightarrow> 'a \<Rightarrow> 'a list \<Rightarrow> 'a list" where
  "replace_runs P r [] = []"
| "replace_runs P r (c # cs) =
     (if P c then r # replace_runs P r (dropWhile P cs) else c # replace_runs P r cs)"
  by pat_completeness auto
termination
  by (relation "measure (\<lambda>(P, r, cs). length cs)")
     (auto simp: length_dropWhile_le less_Suc_eq_le)

text \<open>\<^verbatim>\<open>a || b\<close> on strings: the empty string is the only falsy string.\<close>

definition js_or :: "jstring \<Rightarrow> jstring \<Rightarrow> jstring" where
  "js_or a b = (if a = [] then b else a)"

text \<open>\<^verbatim>\<open>parts.join(sep)\<close> on an array of strings.\<close>

fun join :: "jstring \<Rightarrow> jstring list \<Rightarrow> jstring" where
  "join sep [] = []"
| "join sep [x] = x"
| "join sep (x # y # ys) = x @ sep @ join sep (y # ys)"

text \<open>\<^verbatim>\<open>String(n)\<close> for a non-negative integer below \<open>10^21\<close>: its decimal digits.\<close>

definition digit :: "nat \<Rightarrow> jschar" where
  "digit d = 0x30 + of_nat d"

function nat_to_String :: "nat \<Rightarrow> jstring" where
  "nat_to_String n =
     (if n < 10 then [digit n] else nat_to_String (n div 10) @ [digit (n mod 10)])"
  by pat_completeness auto
termination
  by (relation "measure (\<lambda>n. n)") auto

declare nat_to_String.simps [simp del]

section \<open>Values of the request body\<close>

text \<open>
  The body of a request is what \<^verbatim>\<open>JSON.parse\<close> returns: null, booleans, numbers,
  strings, arrays and plain objects with string keys; \<open>JUndefined\<close> is what reading an
  absent property gives. The type \<open>'n\<close> of numbers is left open: the program only ever
  converts a number of the body to a string, and that conversion is the parameter \<open>ns\<close>
  of the functions below. Property names are ASCII in the program, so keys are HOL
  strings; an object holds each key once.
\<close>

datatype error = TypeError | IOError

datatype 'n jsval =
    JUndefined
  | JNull
  | JBool bool
  | JNum 'n
  | JStr jstring
  | JArr "'n jsval list"
  | JObj "(string \<times> 'n jsval) list"

definition bind :: "error + 'a \<Rightarrow> ('a \<Rightarrow> error + 'b) \<Rightarrow> error + 'b" where
  "bind r f = (case r of Inl e \<Rightarrow> Inl e | Inr x \<Rightarrow> f x)"

text \<open>The results of a left-to-right evaluation that stops at the first exception.\<close>

fun sequence :: "(error + 'a) list \<Rightarrow> error + 'a list" where
  "sequence [] = Inr []"
| "sequence (r # rs) = bind r (\<lambda>x. bind (sequence rs) (\<lambda>xs. Inr (x # xs)))"

text \<open>
  \<^verbatim>\<open>v.k\<close> for the property names the program reads (\<^verbatim>\<open>date\<close>, \<^verbatim>\<open>name\<close>, ...; none
  of them is defined on a prototype): a TypeError on null and undefined, the own property
  of an object, undefined on every other value.
\<close>

fun get_prop :: "'n jsval \<Rightarrow> string \<Rightarrow> error + 'n jsval" where
  "get_prop JUndefined k = Inl TypeError"
| "get_prop JNull k = Inl TypeError"
| "get_prop (JObj kvs) k = (case map_of kvs k of None \<Rightarrow> Inr JUndefined | Some v \<Rightarrow> Inr v)"
| "get_prop v k = Inr JUndefined"

text \<open>
  \<^verbatim>\<open>String(v)\<close>. An array joins the strings of its elements with a comma, null and
  undefined elements giving the empty string. A plain object gives \<^verbatim>\<open>[object Object]\<close>
  through \<^verbatim>\<open>Object.prototype.toString\<close>, unless it has an own property
  \<^verbatim>\<open>toString\<close>: a value of the body is never callable, \<^verbatim>\<open>valueOf\<close> does not return a
  primitive either, and the conversion throws a TypeError.
\<close>

fun to_String :: "('n \<Rightarrow> jstring) \<Rightarrow> 'n jsval \<Rightarrow> error + jstring" where
  "to_String ns JUndefined = Inr (ascii ''undefined'')"
| "to_String ns JNull = Inr (ascii ''null'')"
| "to_String ns (JBool b) = Inr (if b then ascii ''true'' else ascii ''false'')"
| "to_String ns (JNum n) = Inr (ns n)"
| "to_String ns (JStr s) = Inr s"
| "to_String ns (JArr vs) =
     bind (sequence (map (\<lambda>e. if e = JNull \<or> e = JUndefined then Inr [] else to_String ns e) vs))
       (\<lambda>parts. Inr (join (ascii '','') parts))"
| "to_String ns (JObj kvs) =
     (case map_of kvs ''toString'' of
        None \<Rightarrow> Inr (ascii ''[object Object]'')
      | Some f \<Rightarrow> Inl TypeError)"

section \<open>The clock\<close>

text \<open>
  Modelled from the spec: \<^verbatim>\<open>dayjs().format(...)\<close> of the external dayjs library, for the
  two patterns of the source. The current local time is a parameter; the tokens
  \<^verbatim>\<open>DD\<close>, \<^verbatim>\<open>MM\<close>, \<^verbatim>\<open>HH\<close>, \<^verbatim>\<open>mm\<close>, \<^verbatim>\<open>ss\<close> are the field padded with zeros to two
  digits, \<^verbatim>\<open>YYYY\<close> the year padded to four.
\<close>

record clock =
  clk_year :: nat
  clk_month :: nat
  clk_day :: nat
  clk_hour :: nat
  clk_minute :: nat
  clk_second :: nat

definition pad_start :: "nat \<Rightarrow> jstring \<Rightarrow> jstring" where
  "pad_start n s = replicate (n - length s) 0x30 @ s"

definition format_DD_MM_YYYY :: "clock \<Rightarrow> jstring" where
  "format_DD_MM_YYYY c =
     pad_start 2 (nat_to_String (clk_day c)) @ ascii ''.'' @
     pad_start 2 (nat_to_String (clk_month c)) @ ascii ''.'' @
     pad_start 4 (nat_to_String (clk_year c))"

definition format_timestamp :: "clock \<Rightarrow> jstring" where
  "format_timestamp c =
     pad_start 4 (nat_to_String (clk_year c)) @ ascii ''-'' @
     pad_start 2 (nat_to_String (clk_month c)) @ ascii ''-'' @
     pad_start 2 (nat_to_String (clk_day c)) @ ascii '' '' @
     pad_start 2 (nat_to_String (clk_hour c)) @ ascii '':'' @
     pad_start 2 (nat_to_String (clk_minute c)) @ ascii '':'' @
     pad_start 2 (nat_to_String (clk_second c))"

text \<open>A calendar date and time of day, in the four-digit years.\<close>

definition valid_clock :: "clock \<Rightarrow> bool" where
  "valid_clock c =
     (clk_year c < 10000 \<and> 1 \<le> clk_month c \<and> clk_month c \<le> 12 \<and>
      1 \<le> clk_day c \<and> clk_day c \<le> 31 \<and>
      clk_hour c < 24 \<and> clk_minute c < 60 \<and> clk_second c < 60)"

definition is_digit :: "jschar \<Rightarrow> bool" where
  "is_digit c = (c \<in> set [0x30, 0x31, 0x32, 0x33, 0x34, 0x35, 0x36, 0x37, 0x38, 0x39])"

section \<open>The submission normalizer\<close>

record participant =
  idx :: nat
  name :: jstring
  birthYear :: jstring
  hasRank :: jstring
  performingRank :: jstring
  medicalVisa :: jstring

record submission =
  date :: jstring
  city :: jstring
  club :: jstring
  contacts :: jstring
  coach :: jstring
  judge :: jstring
  judgeCategory :: jstring
  participants :: "participant list"

text \<open>\<^verbatim>\<open>const pick = (v) => (v == null ? '' : String(v).trim())\<close>\<close>

definition pick :: "('n \<Rightarrow> jstring) \<Rightarrow> 'n jsval \<Rightarrow> error + jstring" where
  "pick ns v =
     (if v = JNull \<or> v = JUndefined then Inr [] else bind (to_String ns v) (\<lambda>s. Inr (trim s)))"

text \<open>The callback of \<^verbatim>\<open>b.participants.map((p, i) => ...)\<close>.\<close>

definition sanitizeParticipant :: "('n \<Rightarrow> jstring) \<Rightarrow> nat \<times> 'n jsval \<Rightarrow> error + participant" where
  "sanitizeParticipant ns ip =
     (case ip of (i, p) \<Rightarrow>
       bind (bind (get_prop p ''name'') (pick ns)) (\<lambda>n.
       bind (bind (get_prop p ''birthYear'') (pick ns)) (\<lambda>y.
       bind (bind (get_prop p ''hasRank'') (pick ns)) (\<lambda>h.
       bind (bind (get_prop p ''performingRank'') (pick ns)) (\<lambda>r.
       bind (bind (get_prop p ''medicalVisa'') (pick ns)) (\<lambda>m.
       Inr \<lparr>idx = i + 1, name = n, birthYear = y, hasRank = h,
            performingRank = r, medicalVisa = m\<rparr>))))))"

definition sanitizeSubmission ::
    "('n \<Rightarrow> jstring) \<Rightarrow> clock \<Rightarrow> 'n jsval \<Rightarrow> error + submission" where
  "sanitizeSubmission ns now b =
     bind (bind (get_prop b ''date'') (pick ns)) (\<lambda>d.
     bind (bind (get_prop b ''city'') (pick ns)) (\<lambda>ci.
     bind (bind (get_prop b ''club'') (pick ns)) (\<lambda>cl.
     bind (bind (get_prop b ''contacts'') (pick ns)) (\<lambda>co.
     bind (bind (get_prop b ''coach'') (pick ns)) (\<lambda>ch.
     bind (bind (get_prop b ''judge'') (pick ns)) (\<lambda>j.
     bind (bind (get_prop b ''judgeCategory'') (pick ns)) (\<lambda>jc.
     bind (get_prop b ''participants'') (\<lambda>ps.
     bind (case ps of
             JArr xs \<Rightarrow> sequence (map (sanitizeParticipant ns) (enumerate 0 xs))
           | _ \<Rightarrow> Inr []) (\<lambda>parts.
     Inr \<lparr>date = js_or d (format_DD_MM_YYYY now), city = ci, club = cl, contacts = co,
          coach = ch, judge = j, judgeCategory = jc, participants = parts\<rparr>)))))))))"

section \<open>File names\<close>

text \<open>
  \<^verbatim>\<open>name.replace(/[\\/:*?"<>|\n\r]+/g, '_').replace(/\s+/g, ' ').trim()\<close>, one
  definition for each call of the chain.
\<close>

definition replace_unsafe :: "jstring \<Rightarrow> jstring" where
  "replace_unsafe nm = replace_runs is_unsafe 0x5F nm"

definition collapse_spaces :: "jstring \<Rightarrow> jstring" where
  "collapse_spaces s = replace_runs is_space 0x20 s"

definition fileSafe :: "jstring \<Rightarrow> jstring" where
  "fileSafe nm = trim (collapse_spaces (replace_unsafe nm))"

section \<open>The roster log\<close>

text \<open>
  The workbook of the external ExcelJS library, which is not part of the source. A
  workbook is its worksheets by name; a worksheet has its columns (header, key and width;
  the header goes to the first line of the sheet) and its data rows, each a list of
  positions in column order, \<open>Blank\<close> where the row has no cell. \<^verbatim>\<open>addRow\<close> with an
  object makes a cell for every column whose key the object has, and for no other column.

  The file \<^verbatim>\<open>data/submissions.xlsx\<close> is \<open>None\<close> while it does not exist. The key of
  a column is a name that the program gives to a column of a workbook in memory; it is
  not part of what the library reads from a file, so the columns of a workbook that
  \<open>readFile\<close> returns have no key. A row without any cell is not written to the file.
\<close>

record column =
  header :: string
  key :: "string option"
  width :: nat

datatype cellval = Blank | Text jstring | Number nat

record worksheet =
  columns :: "column list"
  rows :: "cellval list list"

type_synonym workbook = "(string \<times> worksheet) list"
type_synonym log_file = "workbook option"

definition getWorksheet :: "workbook \<Rightarrow> string \<Rightarrow> worksheet option" where
  "getWorksheet wb n = map_of wb n"

definition addWorksheet :: "workbook \<Rightarrow> string \<Rightarrow> workbook \<times> worksheet" where
  "addWorksheet wb n = (wb @ [(n, \<lparr>columns = [], rows = []\<rparr>)], \<lparr>columns = [], rows = []\<rparr>)"

text \<open>A worksheet is an object of its workbook: adding a row to it changes the workbook.\<close>

fun put_sheet :: "string \<Rightarrow> worksheet \<Rightarrow> workbook \<Rightarrow> workbook" where
  "put_sheet n ws [] = [(n, ws)]"
| "put_sheet n ws ((m, w) # wb) = (if m = n then (n, ws) # wb else (m, w) # put_sheet n ws wb)"

definition addRow :: "(string \<times> cellval) list \<Rightarrow> worksheet \<Rightarrow> worksheet" where
  "addRow obj ws =
     ws\<lparr>rows := rows ws @
        [map (\<lambda>c. case key c of
                     None \<Rightarrow> Blank
                   | Some k \<Rightarrow> (case map_of obj k of None \<Rightarrow> Blank | Some v \<Rightarrow> v))
           (columns ws)]\<rparr>"

definition forget_keys :: "worksheet \<Rightarrow> worksheet" where
  "forget_keys ws = ws\<lparr>columns := map (\<lambda>c. c\<lparr>key := None\<rparr>) (columns ws)\<rparr>"

definition readFile :: "log_file \<Rightarrow> error + workbook" where
  "readFile f =
     (case f of
        None \<Rightarrow> Inl IOError
      | Some wb \<Rightarrow> Inr (map (\<lambda>(n, ws). (n, forget_keys ws)) wb))"

definition has_cell :: "cellval list \<Rightarrow> bool" where
  "has_cell r = list_ex (\<lambda>c. c \<noteq> Blank) r"

definition writeFile :: "workbook \<Rightarrow> log_file" where
  "writeFile wb = Some (map (\<lambda>(n, ws). (n, ws\<lparr>rows := filter has_cell (rows ws)\<rparr>)) wb)"

definition log_columns :: "column list" where
  "log_columns =
     [\<lparr>header = ''Timestamp'', key = Some ''ts'', width = 20\<rparr>,
      \<lparr>header = ''Date (on form)'', key = Some ''date'', width = 16\<rparr>,
      \<lparr>header = ''City'', key = Some ''city'', width = 16\<rparr>,
      \<lparr>header = ''Club/School'', key = Some ''club'', width = 32\<rparr>,
      \<lparr>header = ''Contacts'', key = Some ''contacts'', width = 32\<rparr>,
      \<lparr>header = ''Coach (FIO)'', key = Some ''coach'', width = 28\<rparr>,
      \<lparr>header = ''Judge (FIO)'', key = Some ''judge'', width = 28\<rparr>,
      \<lparr>header = ''Judge Category'', key = Some ''judgeCategory'', width = 18\<rparr>,
      \<lparr>header = ''Participant #'', key = Some ''p_idx'', width = 12\<rparr>,
      \<lparr>header = ''Participant Name'', key = Some ''p_name'', width = 28\<rparr>,
      \<lparr>header = ''Birth Year'', key = Some ''p_birth'', width = 12\<rparr>,
      \<lparr>header = ''Has Rank'', key = Some ''p_has'', width = 14\<rparr>,
      \<lparr>header = ''Performing Rank'', key = Some ''p_perf'', width = 16\<rparr>,
      \<lparr>header = ''Medical Visa'', key = Some ''p_med'', width = 16\<rparr>]"

text \<open>\<^verbatim>\<open>ensureWorkbook\<close> writes a new workbook to the file, whatever the file held.\<close>

definition ensureWorkbook :: "log_file \<Rightarrow> log_file" where
  "ensureWorkbook f = writeFile [(''Submissions'', \<lparr>columns = log_columns, rows = []\<rparr>)]"

text \<open>
  The program calls \<^verbatim>\<open>ensureWorkbook\<close> at two places, both times only when the file does
  not exist: \<^verbatim>\<open>if (!fs.existsSync(EXCEL_PATH)) await ensureWorkbook()\<close> in the download
  handler and the \<^verbatim>\<open>else\<close> branch at the start of \<^verbatim>\<open>appendToExcel\<close>.
\<close>

definition ensureLog :: "log_file \<Rightarrow> log_file" where
  "ensureLog f = (if f = None then ensureWorkbook f else f)"

definition submission_cells :: "jstring \<Rightarrow> submission \<Rightarrow> (string \<times> cellval) list" where
  "submission_cells ts payload =
     [(''ts'', Text ts), (''date'', Text (date payload)), (''city'', Text (city payload)),
      (''club'', Text (club payload)), (''contacts'', Text (contacts payload)),
      (''coach'', Text (coach payload)), (''judge'', Text (judge payload)),
      (''judgeCategory'', Text (judgeCategory payload))]"

definition participant_cells :: "participant \<Rightarrow> (string \<times> cellval) list" where
  "participant_cells p =
     [(''p_idx'', Number (idx p)), (''p_name'', Text (name p)), (''p_birth'', Text (birthYear p)),
      (''p_has'', Text (hasRank p)), (''p_perf'', Text (performingRank p)),
      (''p_med'', Text (medicalVisa p))]"

definition appendToExcel :: "clock \<Rightarrow> submission \<Rightarrow> log_file \<Rightarrow> error + log_file" where
  "appendToExcel now payload f =
     bind (if f \<noteq> None then readFile f else readFile (ensureWorkbook f)) (\<lambda>wb.
       let (wb1, ws) = (case getWorksheet wb ''Submissions'' of
                          Some ws \<Rightarrow> (wb, ws)
                        | None \<Rightarrow> addWorksheet wb ''Submissions'');
           ts = format_timestamp now;
           ws1 = (if length (participants payload) = 0
                  then addRow (submission_cells ts payload) ws
                  else foldl (\<lambda>w p. addRow (submission_cells ts payload @ participant_cells p) w)
                         ws (participants payload))
       in Inr (writeFile (put_sheet ''Submissions'' ws1 wb1)))"

text \<open>The data rows of the log: those of the sheet \<^verbatim>\<open>Submissions\<close> of the file.\<close>

definition log_rows :: "log_file \<Rightarrow> cellval list list" where
  "log_rows f =
     (case f of
        None \<Rightarrow> []
      | Some wb \<Rightarrow> (case getWorksheet wb ''Submissions'' of None \<Rightarrow> [] | Some ws \<Rightarrow> rows ws))"

definition log_header :: "log_file \<Rightarrow> string list" where
  "log_header f =
     (case f of
        None \<Rightarrow> []
      | Some wb \<Rightarrow>
          (case getWorksheet wb ''Submissions'' of None \<Rightarrow> [] | Some ws \<Rightarrow> map header (columns ws)))"

section \<open>The document\<close>

text \<open>
  The document tree handed to the docx library's packer: paragraphs as the texts of their
  runs, tables as rows of cells. A cell keeps its text and width; \<open>head_cell\<close> is a cell
  of the shaded, bold, centred header row. Fonts, sizes, spacing and page setup are left out.
\<close>

record tcell =
  cell_text :: jstring
  cell_width :: nat
  cell_head :: bool

datatype block = Paragraph "jstring list" | Table "tcell list list"

definition cell :: "jstring \<Rightarrow> nat \<Rightarrow> tcell" where
  "cell t w = \<lparr>cell_text = t, cell_width = w, cell_head = False\<rparr>"

definition head_cell :: "jstring \<Rightarrow> nat \<Rightarrow> tcell" where
  "head_cell t w = \<lparr>cell_text = t, cell_width = w, cell_head = True\<rparr>"

definition info_table :: "submission \<Rightarrow> tcell list list" where
  "info_table data =
     [[cell [0x041D, 0x0430, 0x0437, 0x0432, 0x0430, 0x043D, 0x0438, 0x0435, 0x20, 0x043A,
             0x043B, 0x0443, 0x0431, 0x0430, 0x2F, 0x0441, 0x043F, 0x043E, 0x0440, 0x0442,
             0x0438, 0x0432, 0x043D, 0x043E, 0x0439, 0x20, 0x0448, 0x043A, 0x043E, 0x043B,
             0x044B] 5500,
       cell (js_or (club data) []) 5500],
      [cell [0x0413, 0x043E, 0x0440, 0x043E, 0x0434] 5500,
       cell (js_or (city data) []) 5500],
      [cell [0x041A, 0x043E, 0x043D, 0x0442, 0x0430, 0x043A, 0x0442, 0x044B, 0x20, 0x28,
             0x0442, 0x0435, 0x043B, 0x0435, 0x0444, 0x043E, 0x043D, 0x2C, 0x20, 0x044D,
             0x043B, 0x0435, 0x043A, 0x0442, 0x0440, 0x043E, 0x043D, 0x043D, 0x0430, 0x044F,
             0x20, 0x043F, 0x043E, 0x0447, 0x0442, 0x0430, 0x29] 5500,
       cell (js_or (contacts data) []) 5500],
      [cell [0x0422, 0x0440, 0x0435, 0x043D, 0x0435, 0x0440, 0x20, 0x28, 0x0424, 0x2E,
             0x0418, 0x2E, 0x041E, 0x29] 5500,
       cell (js_or (coach data) []) 5500],
      [cell [0x0421, 0x0443, 0x0434, 0x044C, 0x044F, 0x20, 0x28, 0x0424, 0x2E, 0x0418,
             0x2E, 0x041E, 0x29, 0x2C, 0x20, 0x0441, 0x0443, 0x0434, 0x0435, 0x0439,
             0x0441, 0x043A, 0x0430, 0x044F, 0x20, 0x043A, 0x0430, 0x0442, 0x0435, 0x0433,
             0x043E, 0x0440, 0x0438, 0x044F] 5500,
       cell (join (ascii '', '') (filter (\<lambda>s. s \<noteq> []) [judge data, judgeCategory data])) 5500]]"

definition participant_header :: "tcell list" where
  "participant_header =
     [head_cell [0x2116, 0x0A, 0x043F, 0x2F, 0x043F] 900,
      head_cell [0x0424, 0x0418, 0x041E, 0x20, 0x0433, 0x0438, 0x043C, 0x043D, 0x0430,
                 0x0441, 0x0442, 0x043A, 0x0438] 3500,
      head_cell [0x0413, 0x043E, 0x0434, 0x20, 0x0440, 0x043E, 0x0436, 0x0434, 0x0435,
                 0x043D, 0x0438, 0x044F] 1400,
      head_cell [0x0418, 0x043C, 0x0435, 0x0435, 0x0442, 0x20, 0x0440, 0x0430, 0x0437,
                 0x0440, 0x044F, 0x0434] 1700,
      head_cell [0x0412, 0x044B, 0x0441, 0x0442, 0x0443, 0x043F, 0x0430, 0x0435, 0x0442,
                 0x20, 0x0440, 0x0430, 0x0437, 0x0440, 0x044F, 0x0434] 1900,
      head_cell [0x0412, 0x0438, 0x0437, 0x0430, 0x20, 0x0432, 0x0440, 0x0430, 0x0447,
                 0x0430] 1500]"

text \<open>
  The rows below the header: the callback of \<^verbatim>\<open>.map((p, i) => new TableRow(...))\<close> over
  the participants, or over \<^verbatim>\<open>new Array(8).fill(null)\<close> when there are none.
\<close>

definition participant_row :: "nat \<times> participant option \<Rightarrow> tcell list" where
  "participant_row ip =
     (case ip of (i, p) \<Rightarrow>
       [cell (nat_to_String (case p of Some q \<Rightarrow> idx q | None \<Rightarrow> i + 1)) 900,
        cell (case p of Some q \<Rightarrow> js_or (name q) [] | None \<Rightarrow> []) 3500,
        cell (case p of Some q \<Rightarrow> js_or (birthYear q) [] | None \<Rightarrow> []) 1400,
        cell (case p of Some q \<Rightarrow> js_or (hasRank q) [] | None \<Rightarrow> []) 1700,
        cell (case p of Some q \<Rightarrow> js_or (performingRank q) [] | None \<Rightarrow> []) 1900,
        cell (case p of Some q \<Rightarrow> js_or (medicalVisa q) [] | None \<Rightarrow> []) 1500])"

definition participant_rows :: "submission \<Rightarrow> tcell list list" where
  "participant_rows data =
     map participant_row
       (enumerate 0 (if length (participants data) \<noteq> 0
                     then map Some (participants data)
                     else replicate 8 None))"

definition buildDocx :: "submission \<Rightarrow> block list" where
  "buildDocx data =
     [Paragraph [[0x0417, 0x0410, 0x042F, 0x0412, 0x041A, 0x0410]],
      Paragraph [[0x043D, 0x0430, 0x20, 0x0443, 0x0447, 0x0430, 0x0441, 0x0442, 0x0438,
                  0x0435, 0x20, 0x0432, 0x20, 0x043E, 0x0442, 0x043A, 0x0440, 0x044B,
                  0x0442, 0x043E, 0x043C, 0x20, 0x0442, 0x0443, 0x0440, 0x043D, 0x0438,
                  0x0440, 0x0435, 0x20, 0x043F, 0x043E, 0x20, 0x0445, 0x0443, 0x0434,
                  0x043E, 0x0436, 0x0435, 0x0441, 0x0442, 0x0432, 0x0435, 0x043D, 0x043D,
                  0x043E, 0x0439, 0x20, 0x0433, 0x0438, 0x043C, 0x043D, 0x0430, 0x0441,
                  0x0442, 0x0438, 0x043A, 0x0435]],
      Paragraph [[0x00AB, 0x0410, 0x043A, 0x0432, 0x0430, 0x0440, 0x0435, 0x043B, 0x044C],
                 [0x44, 0x61, 0x6E, 0x63, 0x65, 0x00BB]],
      Paragraph [[0x0433, 0x2E, 0x20, 0x041C, 0x044B, 0x0442, 0x0438, 0x0449, 0x0438,
                  0x2C, 0x20] @ date data],
      Paragraph [ascii '' ''],
      Table (info_table data),
      Paragraph [ascii '' ''],
      Paragraph [[0x0418, 0x043D, 0x0434, 0x0438, 0x0432, 0x0438, 0x0434, 0x0443, 0x0430,
                  0x043B, 0x044C, 0x043D, 0x044B, 0x0435, 0x20, 0x0443, 0x043F, 0x0440,
                  0x0430, 0x0436, 0x043D, 0x0435, 0x043D, 0x0438, 0x044F]],
      Table (participant_header # participant_rows data)]"

text \<open>The participant table of a document: its last block; and the rows below its header.\<close>

definition participant_table :: "block list \<Rightarrow> tcell list list" where
  "participant_table doc = (case rev doc of Table t # rest \<Rightarrow> t | _ \<Rightarrow> [])"

definition data_rows :: "block list \<Rightarrow> tcell list list" where
  "data_rows doc = tl (participant_table doc)"

text \<open>The line of the heading that carries the date: the fourth paragraph.\<close>

definition date_line :: "block list \<Rightarrow> jstring" where
  "date_line doc =
     (case drop 3 doc of Paragraph [t] # rest \<Rightarrow> t | _ \<Rightarrow> [])"

section \<open>The notification\<close>

text \<open>
  The argument of \<^verbatim>\<open>transporter.sendMail\<close>. Sender and recipient come from the
  environment and are parameters; \<open>'b\<close> is the type of the packed document.
\<close>

record 'b attachment =
  filename :: jstring
  content :: 'b
  contentType :: string

record 'b mail =
  mail_from :: jstring
  mail_to :: jstring
  subject :: jstring
  text_body :: jstring
  attachments :: "'b attachment list"

definition emailDocx :: "jstring \<Rightarrow> jstring \<Rightarrow> submission \<Rightarrow> 'b \<Rightarrow> 'b mail" where
  "emailDocx FROM_EMAIL WORK_EMAIL payload buffer =
     (let safeName = fileSafe (js_or (club payload) [0x0417, 0x0430, 0x044F, 0x0432, 0x043A, 0x0430]);
          fileName = [0x0417, 0x0430, 0x044F, 0x0432, 0x043A, 0x0430, 0x5F] @ safeName @ ascii ''.docx''
      in \<lparr>mail_from = FROM_EMAIL,
          mail_to = WORK_EMAIL,
          subject = [0x0417, 0x0430, 0x044F, 0x0432, 0x043A, 0x0430, 0x3A, 0x20] @
            js_or (club payload)
              [0x0431, 0x0435, 0x0437, 0x20, 0x043D, 0x0430, 0x0437, 0x0432, 0x0430, 0x043D,
               0x0438, 0x044F],
          text_body = join [0x0A]
            [[0x041A, 0x043B, 0x0443, 0x0431, 0x2F, 0x0448, 0x043A, 0x043E, 0x043B, 0x0430,
              0x3A, 0x20] @ js_or (club payload) (ascii ''-''),
             [0x0413, 0x043E, 0x0440, 0x043E, 0x0434, 0x3A, 0x20] @
               js_or (city payload) (ascii ''-''),
             [0x0422, 0x0440, 0x0435, 0x043D, 0x0435, 0x0440, 0x3A, 0x20] @
               js_or (coach payload) (ascii ''-''),
             [0x041A, 0x043E, 0x043D, 0x0442, 0x0430, 0x043A, 0x0442, 0x044B, 0x3A, 0x20] @
               js_or (contacts payload) (ascii ''-''),
             [0x0421, 0x0443, 0x0434, 0x044C, 0x044F, 0x3A, 0x20] @
               js_or (join (ascii '', '')
                        (filter (\<lambda>s. s \<noteq> []) [judge payload, judgeCategory payload]))
                     (ascii ''-''),
             [0x0423, 0x0447, 0x0430, 0x0441, 0x0442, 0x043D, 0x0438, 0x0446, 0x3A, 0x20] @
               nat_to_String (length (participants payload))],
          attachments =
            [\<lparr>filename = fileName, content = buffer,
              contentType = ''application/vnd.openxmlformats-officedocument.wordprocessingml.document''\<rparr>]\<rparr>)"

section \<open>Example inputs\<close>

text \<open>
  A request body with a city, a club, a coach and one participant with a name and a
  birth year; the same body with a club name that holds \<^verbatim>\<open>A/B:C\<close>; a body whose
  participants carry \<^verbatim>\<open>idx\<close> values of their own; and a time of day. Numbers of the
  body are naturals here, printed in decimal.
\<close>

definition example_participant :: "nat jsval" where
  "example_participant =
     JObj [(''name'', JStr [0x041F, 0x0435, 0x0442, 0x0440, 0x043E, 0x0432, 0x0430, 0x20,
                            0x0410, 0x2E]),
           (''birthYear'', JStr (ascii ''2012''))]"

definition example_body :: "nat jsval" where
  "example_body =
     JObj [(''city'', JStr [0x041C, 0x044B, 0x0442, 0x0438, 0x0449, 0x0438]),
           (''club'', JStr [0x0417, 0x0432, 0x0435, 0x0437, 0x0434, 0x0430]),
           (''coach'', JStr [0x0418, 0x0432, 0x0430, 0x043D, 0x043E, 0x0432, 0x0430, 0x20,
                             0x0418, 0x2E, 0x0418, 0x2E]),
           (''participants'', JArr [example_participant])]"

definition example_body_idx :: "nat jsval" where
  "example_body_idx =
     JObj [(''date'', JStr (ascii '' 01.02.2026 '')),
           (''participants'',
              JArr [JObj [(''idx'', JNum 7), (''name'', JStr (ascii ''A''))],
                    JObj [(''idx'', JStr (ascii ''x''))],
                    JNum 5])]"

definition example_clock :: clock where
  "example_clock =
     \<lparr>clk_year = 2025, clk_month = 10, clk_day = 12,
      clk_hour = 9, clk_minute = 5, clk_second = 3\<rparr>"

definition example_submission :: submission where
  "example_submission =
     \<lparr>date = ascii ''12.10.2025'',
      city = [0x041C, 0x044B, 0x0442, 0x0438, 0x0449, 0x0438],
      club = [0x0417, 0x0432, 0x0435, 0x0437, 0x0434, 0x0430],
      contacts = [],
      coach = [0x0418, 0x0432, 0x0430, 0x043D, 0x043E, 0x0432, 0x0430, 0x20, 0x0418, 0x2E,
               0x0418, 0x2E],
      judge = [],
      judgeCategory = [],
      participants =
        [\<lparr>idx = 1,
          name = [0x041F, 0x0435, 0x0442, 0x0440, 0x043E, 0x0432, 0x0430, 0x20, 0x0410, 0x2E],
          birthYear = ascii ''2012'', hasRank = [], performingRank = [],
          medicalVisa = []\<rparr>]\<rparr>"

definition example_log :: log_file where
  "example_log =
     Some [(''Submissions'',
            \<lparr>columns = log_columns,
             rows = [[Text (ascii ''2025-10-11 18:30:00''), Text (ascii ''11.10.2025''),
                      Text [], Text (ascii ''X''), Text [], Text [], Text [], Text [],
                      Blank, Blank, Blank, Blank, Blank, Blank]]\<rparr>)]"

section \<open>Properties of the string operations\<close>

lemma dropWhile_append_stop:
  "\<not> P c \<Longrightarrow> dropWhile P (xs @ c # w) = dropWhile P xs @ c # w"
  by (induction xs) auto

lemma replace_runs_split:
  "\<not> P c \<Longrightarrow> replace_runs P r (u @ c # w) = replace_runs P r u @ c # replace_runs P r w"
  by (induction P r u rule: replace_runs.induct) (auto simp: dropWhile_append_stop)

lemma replace_runs_run:
  assumes "run \<noteq> []" "\<forall>c\<in>set run. P c" "v = [] \<or> \<not> P (hd v)"
  shows "replace_runs P r (run @ v) = r # replace_runs P r v"
proof -
  obtain c cs where run: "run = c # cs" using assms(1) by (cases run) auto
  have "dropWhile P (cs @ v) = v"
    using assms(2,3) run by (cases v) (auto simp: dropWhile_append)
  then show ?thesis using assms(2) run by simp
qed

lemma replace_runs_maximal_run:
  assumes "run \<noteq> []" "\<forall>c\<in>set run. P c" "u = [] \<or> \<not> P (last u)" "v = [] \<or> \<not> P (hd v)"
  shows "replace_runs P r (u @ run @ v) = replace_runs P r u @ r # replace_runs P r v"
proof (cases "u = []")
  case True
  then show ?thesis using replace_runs_run [OF assms(1,2,4)] by simp
next
  case False
  then obtain u' where u: "u = u' @ [last u]" by (metis append_butlast_last_id)
  have nP: "\<not> P (last u)" using assms(3) False by simp
  have a: "replace_runs P r (u @ run @ v) = replace_runs P r (u' @ last u # (run @ v))"
    using u by (metis append.assoc append_Cons append_Nil)
  have b: "replace_runs P r (u' @ last u # (run @ v))
             = replace_runs P r u' @ last u # replace_runs P r (run @ v)"
    using nP by (rule replace_runs_split [where P = P and c = "last u"])
  have c: "replace_runs P r u = replace_runs P r u' @ [last u]"
    using replace_runs_split [where P = P and c = "last u" and r = r and u = u' and w = "[]"] nP u
    by simp
  show ?thesis
    using a b c replace_runs_run [OF assms(1,2,4)] by simp
qed

lemma replace_runs_set:
  "set (replace_runs P r s) \<subseteq> insert r {c \<in> set s. \<not> P c}"
proof (induction P r s rule: replace_runs.induct)
  case (1 P r)
  then show ?case by simp
next
  case (2 P r c cs)
  have "set (dropWhile P cs) \<subseteq> set cs" by (simp add: set_dropWhileD subsetI)
  with 2 show ?case by (auto split: if_splits)
qed

lemma replace_runs_id:
  "\<forall>c\<in>set s. \<not> P c \<Longrightarrow> replace_runs P r s = s"
  by (induction s) auto

lemma replace_runs_head:
  "s = [] \<or> \<not> P (hd s) \<Longrightarrow> replace_runs P r s = [] \<or> \<not> P (hd (replace_runs P r s))"
  by (cases s) auto

lemma dropWhile_head_id: "s = [] \<or> \<not> P (hd s) \<Longrightarrow> dropWhile P s = s"
  by (cases s) auto

lemma dropWhile_head: "dropWhile P s = [] \<or> \<not> P (hd (dropWhile P s))"
  by (metis hd_dropWhile)

lemma replace_runs_idem:
  "replace_runs P r (replace_runs P r s) = replace_runs P r s"
proof (induction P r s rule: replace_runs.induct)
  case (1 P r)
  then show ?case by simp
next
  case (2 P r c cs)
  show ?case
  proof (cases "P c")
    case True
    let ?t = "replace_runs P r (dropWhile P cs)"
    have "dropWhile P ?t = ?t"
      by (intro dropWhile_head_id replace_runs_head dropWhile_head)
    then show ?thesis using True 2 by (cases "P r") auto
  next
    case False
    then show ?thesis using 2 by simp
  qed
qed

lemma replace_runs_snoc:
  "\<not> P c \<Longrightarrow> replace_runs P r (u @ [c]) = replace_runs P r u @ [c]"
  using replace_runs_split [where P = P and c = c and r = r and u = u and w = "[]"] by simp

lemma replace_runs_fix_dropWhile:
  assumes "replace_runs P r w = w"
  shows "replace_runs P r (dropWhile P w) = dropWhile P w"
proof (cases w)
  case Nil
  then show ?thesis by simp
next
  case (Cons c cs)
  show ?thesis
  proof (cases "P c")
    case True
    let ?t = "replace_runs P r (dropWhile P cs)"
    have t: "?t = cs" using assms Cons True by auto
    have "dropWhile P ?t = ?t"
      by (intro dropWhile_head_id replace_runs_head dropWhile_head)
    then have "dropWhile P cs = cs" using t by simp
    then show ?thesis using Cons True t by simp
  next
    case False
    then show ?thesis using assms Cons by simp
  qed
qed

lemma replace_runs_fix_rtrim:
  assumes fx: "replace_runs P r w = w"
  shows "replace_runs P r (rev (dropWhile P (rev w))) = rev (dropWhile P (rev w))"
proof -
  let ?a = "rev (dropWhile P (rev w))" and ?b = "rev (takeWhile P (rev w))"
  have w: "w = ?a @ ?b"
    by (metis rev_append rev_rev_ident takeWhile_dropWhile_id)
  have bP: "\<forall>c\<in>set ?b. P c" by (auto dest: set_takeWhileD)
  have aP: "?a = [] \<or> \<not> P (last ?a)"
    using dropWhile_head [of P "rev w"] by (auto simp: last_rev)
  show ?thesis
  proof (cases "?b = []")
    case True
    then show ?thesis using w fx by simp
  next
    case bne: False
    have "replace_runs P r (?a @ ?b @ []) = replace_runs P r ?a @ r # replace_runs P r []"
      using bne bP aP by (intro replace_runs_maximal_run) auto
    then have eq: "?a @ ?b = replace_runs P r ?a @ [r]" using w fx by simp
    show ?thesis
    proof (cases "?a = []")
      case True
      then show ?thesis by (simp only: replace_runs.simps(1))
    next
      case False
      then obtain a' c where a: "?a = a' @ [c]" by (metis rev_exhaust)
      then have nP: "\<not> P c" using aP by simp
      have snoc: "replace_runs P r (a' @ [c]) = replace_runs P r a' @ [c]"
        using nP by (rule replace_runs_snoc [where P = P and c = c])
      obtain b' x where b: "?b = b' @ [x]" using bne by (metis rev_exhaust)
      have "a' @ [c] @ b' @ [x] = replace_runs P r a' @ [c] @ [r]"
        using eq a b snoc by simp
      then have e2: "a' @ [c] @ b' = replace_runs P r a' @ [c]"
        by (metis append.assoc append1_eq_conv)
      have "b' = []"
      proof (rule ccontr)
        assume "b' \<noteq> []"
        then obtain b'' y where b': "b' = b'' @ [y]" by (metis rev_exhaust)
        then have "y = c" using e2 by (metis append.assoc append1_eq_conv)
        moreover have "P y" using bP b b' by simp
        ultimately show False using nP by simp
      qed
      then have "replace_runs P r a' = a'" using e2 by simp
      then show ?thesis using a snoc by simp
    qed
  qed
qed

lemma trim_start_head: "trim_start s = [] \<or> \<not> is_space (hd (trim_start s))"
  unfolding trim_start_def by (rule dropWhile_head)

lemma trim_end_prefix: "s = trim_end s @ rev (takeWhile is_space (rev s))"
  unfolding trim_end_def by (metis rev_append rev_rev_ident takeWhile_dropWhile_id)

lemma trim_end_idem: "trim_end (trim_end s) = trim_end s"
  unfolding trim_end_def by (simp add: dropWhile_idem)

lemma trim_start_trim_end:
  assumes "s = [] \<or> \<not> is_space (hd s)"
  shows "trim_start (trim_end s) = trim_end s"
proof (cases "trim_end s = []")
  case True
  then show ?thesis by (simp add: trim_start_def)
next
  case False
  then have "hd (trim_end s) = hd s" "s \<noteq> []"
    using trim_end_prefix [of s] by (metis hd_append2, metis append_Nil2 False trim_end_def dropWhile.simps(1) rev.simps(1))
  then show ?thesis using assms False unfolding trim_start_def by (intro dropWhile_head_id) auto
qed

lemma trim_idem: "trim (trim s) = trim s"
  unfolding trim_def
  using trim_start_trim_end [OF trim_start_head, of s] by (simp add: trim_end_idem)

lemma set_trim: "set (trim s) \<subseteq> set s"
  unfolding trim_def trim_start_def trim_end_def
  by (auto dest!: set_dropWhileD)

lemma not_unsafe_underscore: "\<not> is_unsafe 0x5F" by (simp add: is_unsafe_def)
lemma not_unsafe_space: "\<not> is_unsafe 0x20" by (simp add: is_unsafe_def)
lemma not_space_underscore: "\<not> is_space 0x5F" by (simp add: is_space_def)

lemma fileSafe_no_unsafe: "c \<in> set (fileSafe s) \<Longrightarrow> \<not> is_unsafe c"
proof -
  assume "c \<in> set (fileSafe s)"
  then have "c \<in> set (collapse_spaces (replace_unsafe s))"
    unfolding fileSafe_def using set_trim by blast
  then have "c = 0x20 \<or> c \<in> set (replace_unsafe s)"
    unfolding collapse_spaces_def using replace_runs_set [of is_space "0x20" "replace_unsafe s"] by auto
  then have "c = 0x20 \<or> c = 0x5F \<or> (c \<in> set s \<and> \<not> is_unsafe c)"
    unfolding replace_unsafe_def using replace_runs_set [of is_unsafe "0x5F" s] by auto
  then show ?thesis using not_unsafe_underscore not_unsafe_space by auto
qed

lemma collapse_fileSafe: "collapse_spaces (fileSafe s) = fileSafe s"
proof -
  let ?w = "collapse_spaces (replace_unsafe s)"
  have fx: "replace_runs is_space 0x20 ?w = ?w"
    unfolding collapse_spaces_def by (rule replace_runs_idem)
  have "replace_runs is_space 0x20 (dropWhile is_space ?w) = dropWhile is_space ?w"
    by (rule replace_runs_fix_dropWhile [OF fx])
  then have "replace_runs is_space 0x20 (rev (dropWhile is_space (rev (dropWhile is_space ?w))))
      = rev (dropWhile is_space (rev (dropWhile is_space ?w)))"
    by (rule replace_runs_fix_rtrim)
  then show ?thesis
    by (simp add: fileSafe_def trim_def trim_start_def trim_end_def collapse_spaces_def)
qed

text \<open>
  Claim C7. Sanitising a file name twice gives the same string as sanitising it once:
  the result of \<open>fileSafe\<close> holds no unsafe character, its white space is single
  spaces between other characters, and it neither starts nor ends with white space.
\<close>

theorem fileSafe_idempotent: "fileSafe (fileSafe s) = fileSafe s"
proof -
  have "replace_unsafe (fileSafe s) = fileSafe s"
    unfolding replace_unsafe_def by (intro replace_runs_id ballI fileSafe_no_unsafe)
  then have "fileSafe (fileSafe s) = trim (fileSafe s)"
    by (simp add: fileSafe_def [of "fileSafe s"] collapse_fileSafe)
  also have "\<dots> = fileSafe s"
    by (simp add: fileSafe_def trim_idem)
  finally show ?thesis .
qed

lemma trim_end_append_stop:
  assumes "\<not> is_space c"
  shows "trim_end (z @ c # y) = z @ c # trim_end y"
proof -
  have "dropWhile is_space (rev y @ c # rev z) = dropWhile is_space (rev y) @ c # rev z"
    using assms by (rule dropWhile_append_stop)
  then show ?thesis by (simp add: trim_end_def)
qed

lemma trim_around:
  assumes "\<not> is_space c"
  shows "trim (x @ c # y) = trim_start x @ c # trim_end y"
proof -
  have "trim_start (x @ c # y) = trim_start x @ c # y"
    unfolding trim_start_def using assms by (rule dropWhile_append_stop)
  then show ?thesis using assms by (simp add: trim_def trim_end_append_stop)
qed

lemma collapse_spaces_split:
  "\<not> is_space c \<Longrightarrow> collapse_spaces (x @ c # y) = collapse_spaces x @ c # collapse_spaces y"
  unfolding collapse_spaces_def by (rule replace_runs_split)

lemma replace_unsafe_split:
  "\<not> is_unsafe c \<Longrightarrow> replace_unsafe (x @ c # y) = replace_unsafe x @ c # replace_unsafe y"
  unfolding replace_unsafe_def by (rule replace_runs_split)

text \<open>
  Claim C10. A maximal run of unsafe characters (newline and carriage return are unsafe
  too) becomes one underscore, whatever its length: the sanitised name is the image of
  what precedes the run, one underscore, and the image of what follows it. So
  \<^verbatim>\<open>A//B\<close> gives \<^verbatim>\<open>A_B\<close> and not \<^verbatim>\<open>A__B\<close>.
\<close>

theorem fileSafe_run_one_underscore:
  assumes "run \<noteq> []" and "\<forall>c\<in>set run. is_unsafe c"
    and "u = [] \<or> \<not> is_unsafe (last u)" and "v = [] \<or> \<not> is_unsafe (hd v)"
  shows "fileSafe (u @ run @ v) =
           trim_start (collapse_spaces (replace_unsafe u)) @ [0x5F] @
           trim_end (collapse_spaces (replace_unsafe v))
         \<and> is_unsafe 0x0A \<and> is_unsafe 0x0D"
proof -
  have "replace_unsafe (u @ run @ v) = replace_unsafe u @ 0x5F # replace_unsafe v"
    unfolding replace_unsafe_def using assms by (rule replace_runs_maximal_run)
  then have "fileSafe (u @ run @ v) =
      trim (collapse_spaces (replace_unsafe u) @ 0x5F # collapse_spaces (replace_unsafe v))"
    by (simp add: fileSafe_def collapse_spaces_split [OF not_space_underscore])
  then show ?thesis
    by (simp add: trim_around [OF not_space_underscore] is_unsafe_def)
qed

theorem fileSafe_run_one_underscore_witness:
  "fileSafe (ascii ''A//B'') = ascii ''A_B'' \<and> fileSafe (ascii ''A//B'') \<noteq> ascii ''A__B''"
proof -
  have "fileSafe (ascii ''A'' @ ascii ''//'' @ ascii ''B'') =
           trim_start (collapse_spaces (replace_unsafe (ascii ''A''))) @ [0x5F] @
           trim_end (collapse_spaces (replace_unsafe (ascii ''B'')))"
    using fileSafe_run_one_underscore [of "ascii ''//''" "ascii ''A''" "ascii ''B''"]
    by (simp add: ascii_def is_unsafe_def)
  then show ?thesis
    by (simp add: ascii_def trim_start_def trim_end_def collapse_spaces_def replace_unsafe_def
        is_unsafe_def is_space_def)
qed

lemma ascii_ABC: "ascii ''A/B:C'' = [0x41, 0x2F, 0x42, 0x3A, 0x43]"
  by (simp add: ascii_def)

lemma replace_unsafe_ABC:
  "replace_unsafe (u @ [0x41, 0x2F, 0x42, 0x3A, 0x43] @ v)
     = replace_unsafe u @ [0x41, 0x5F, 0x42, 0x5F, 0x43] @ replace_unsafe v"
proof -
  have nA: "\<not> is_unsafe 0x41" and nB: "\<not> is_unsafe 0x42" and nC: "\<not> is_unsafe 0x43"
    and s1: "is_unsafe 0x2F" and s2: "is_unsafe 0x3A"
    by (simp_all add: is_unsafe_def)
  have "replace_unsafe ([0x2F, 0x42, 0x3A, 0x43] @ v) = [0x5F, 0x42, 0x5F, 0x43] @ replace_unsafe v"
    using nB nC s1 s2 by (simp add: replace_unsafe_def)
  then show ?thesis
    using replace_unsafe_split [OF nA, of u "[0x2F, 0x42, 0x3A, 0x43] @ v"] by simp
qed

lemma collapse_spaces_A_B_C:
  "collapse_spaces (x @ [0x41, 0x5F, 0x42, 0x5F, 0x43] @ y)
     = collapse_spaces x @ [0x41, 0x5F, 0x42, 0x5F, 0x43] @ collapse_spaces y"
proof -
  have n: "\<not> is_space 0x41" "\<not> is_space 0x42" "\<not> is_space 0x43" "\<not> is_space 0x5F"
    by (simp_all add: is_space_def)
  have "collapse_spaces ([0x5F, 0x42, 0x5F, 0x43] @ y) = [0x5F, 0x42, 0x5F, 0x43] @ collapse_spaces y"
    using n by (simp add: collapse_spaces_def)
  then show ?thesis
    using collapse_spaces_split [OF n(1), of x "[0x5F, 0x42, 0x5F, 0x43] @ y"] by simp
qed

lemma trim_A_B_C:
  "trim (x @ [0x41, 0x5F, 0x42, 0x5F, 0x43] @ y)
     = trim_start x @ [0x41, 0x5F, 0x42, 0x5F, 0x43] @ trim_end y"
proof -
  have n: "\<not> is_space 0x41" "\<not> is_space 0x43"
    by (simp_all add: is_space_def)
  have "trim_end ([0x5F, 0x42, 0x5F] @ 0x43 # y) = [0x5F, 0x42, 0x5F] @ 0x43 # trim_end y"
    using n(2) by (rule trim_end_append_stop)
  moreover have "trim (x @ 0x41 # ([0x5F, 0x42, 0x5F, 0x43] @ y))
      = trim_start x @ 0x41 # trim_end ([0x5F, 0x42, 0x5F, 0x43] @ y)"
    using n(1) by (rule trim_around)
  ultimately show ?thesis by simp
qed

lemma fileSafe_ABC:
  "fileSafe (u @ ascii ''A/B:C'' @ v) =
     trim_start (collapse_spaces (replace_unsafe u)) @ ascii ''A_B_C'' @
     trim_end (collapse_spaces (replace_unsafe v))"
proof -
  have "ascii ''A_B_C'' = [0x41, 0x5F, 0x42, 0x5F, 0x43]" by (simp add: ascii_def)
  then show ?thesis
    unfolding fileSafe_def ascii_ABC replace_unsafe_ABC collapse_spaces_A_B_C trim_A_B_C
    by simp
qed

subsection \<open>Decimal digits and the date format\<close>

lemma digit_0: "digit 0 = 0x30"
  by (simp add: digit_def)

lemma nat_to_String_1: "n < 10 \<Longrightarrow> nat_to_String n = [digit n]"
  by (subst nat_to_String.simps) simp

lemma nat_to_String_2:
  assumes "10 \<le> n" "n < 100"
  shows "nat_to_String n = [digit (n div 10), digit (n mod 10)]"
proof -
  have "n div 10 < 10" using assms by simp
  then show ?thesis using assms nat_to_String_1 [of "n div 10"]
    by (subst nat_to_String.simps) simp
qed

lemma nat_to_String_3:
  assumes "100 \<le> n" "n < 1000"
  shows "nat_to_String n = [digit (n div 100), digit (n div 10 mod 10), digit (n mod 10)]"
proof -
  have "10 \<le> n div 10" "n div 10 < 100" using assms by simp_all
  moreover have "n div 10 div 10 = n div 100" by (simp add: div_mult2_eq [symmetric])
  ultimately show ?thesis using assms nat_to_String_2 [of "n div 10"]
    by (subst nat_to_String.simps) simp
qed

lemma nat_to_String_4:
  assumes "1000 \<le> n" "n < 10000"
  shows "nat_to_String n =
    [digit (n div 1000), digit (n div 100 mod 10), digit (n div 10 mod 10), digit (n mod 10)]"
proof -
  have "100 \<le> n div 10" "n div 10 < 1000" using assms by simp_all
  moreover have "n div 10 div 100 = n div 1000" "n div 10 div 10 = n div 100"
    by (simp_all add: div_mult2_eq [symmetric])
  ultimately show ?thesis using assms nat_to_String_3 [of "n div 10"]
    by (subst nat_to_String.simps) simp
qed

lemma pad_start_2:
  assumes "n < 100"
  shows "pad_start 2 (nat_to_String n) = [digit (n div 10), digit (n mod 10)]"
proof (cases "n < 10")
  case True
  then show ?thesis by (simp add: pad_start_def digit_0 nat_to_String_1)
next
  case False
  then show ?thesis using assms nat_to_String_2 [of n] by (simp add: pad_start_def)
qed

lemma replicate_2_3: "replicate 2 x = [x, x]" "replicate 3 x = [x, x, x]"
  by (simp_all add: numeral_2_eq_2 numeral_3_eq_3)

lemma pad_start_4:
  assumes "n < 10000"
  shows "pad_start 4 (nat_to_String n) =
    [digit (n div 1000), digit (n div 100 mod 10), digit (n div 10 mod 10), digit (n mod 10)]"
proof -
  consider "n < 10" | "10 \<le> n" "n < 100" | "100 \<le> n" "n < 1000" | "1000 \<le> n"
    by linarith
  then show ?thesis
  proof cases
    case 1
    then have "nat_to_String n = [digit n]" by (rule nat_to_String_1)
    then show ?thesis using 1 by (simp add: pad_start_def digit_0 replicate_2_3)
  next
    case 2
    then have "nat_to_String n = [digit (n div 10), digit (n mod 10)]"
      by (rule nat_to_String_2)
    moreover have "n div 10 mod 10 = n div 10" using 2 by simp
    ultimately show ?thesis using 2 by (simp add: pad_start_def digit_0 replicate_2_3)
  next
    case 3
    then have "nat_to_String n = [digit (n div 100), digit (n div 10 mod 10), digit (n mod 10)]"
      by (rule nat_to_String_3)
    moreover have "n div 100 mod 10 = n div 100" using 3 by simp
    ultimately show ?thesis using 3 by (simp add: pad_start_def digit_0)
  next
    case 4
    then show ?thesis using assms nat_to_String_4 [of n] by (simp add: pad_start_def)
  qed
qed

lemma is_digit_digit: "d < 10 \<Longrightarrow> is_digit (digit d)"
proof -
  assume "d < 10"
  then have "d \<in> {0, 1, 2, 3, 4, 5, 6, 7, 8, 9}" by auto
  then show ?thesis by (auto simp: is_digit_def digit_def)
qed

lemma format_DD_MM_YYYY_shape:
  assumes "valid_clock c"
  shows "format_DD_MM_YYYY c =
     [digit (clk_day c div 10), digit (clk_day c mod 10), 0x2E,
      digit (clk_month c div 10), digit (clk_month c mod 10), 0x2E,
      digit (clk_year c div 1000), digit (clk_year c div 100 mod 10),
      digit (clk_year c div 10 mod 10), digit (clk_year c mod 10)]"
proof -
  have "clk_day c < 100" "clk_month c < 100" "clk_year c < 10000"
    using assms by (simp_all add: valid_clock_def)
  then show ?thesis
    by (simp add: format_DD_MM_YYYY_def pad_start_2 pad_start_4 ascii_def)
qed

subsection \<open>The normalizer\<close>

lemma bind_Inr: "bind r f = Inr y \<Longrightarrow> \<exists>x. r = Inr x \<and> f x = Inr y"
  by (cases r) (simp_all add: bind_def)

lemma bind_simps: "bind (Inr x) f = f x" "bind (Inl e) f = Inl e"
  by (simp_all add: bind_def)

lemma sequence_Inr:
  "sequence rs = Inr ys \<Longrightarrow> length ys = length rs \<and> (\<forall>i<length rs. rs ! i = Inr (ys ! i))"
proof (induction rs arbitrary: ys)
  case Nil
  then show ?case by simp
next
  case (Cons r rs)
  from Cons.prems obtain x xs where r: "r = Inr x" and xs: "sequence rs = Inr xs"
    and ys: "ys = x # xs"
    by (auto dest!: bind_Inr)
  show ?case using Cons.IH [OF xs] r ys by (auto simp: nth_Cons')
qed

lemma sanitizeParticipant_Inr:
  assumes "sanitizeParticipant ns (i, p) = Inr q"
  shows "idx q = i + 1
    \<and> bind (get_prop p ''name'') (pick ns) = Inr (name q)
    \<and> bind (get_prop p ''birthYear'') (pick ns) = Inr (birthYear q)
    \<and> bind (get_prop p ''hasRank'') (pick ns) = Inr (hasRank q)
    \<and> bind (get_prop p ''performingRank'') (pick ns) = Inr (performingRank q)
    \<and> bind (get_prop p ''medicalVisa'') (pick ns) = Inr (medicalVisa q)"
  using assms unfolding sanitizeParticipant_def
  by (auto dest!: bind_Inr simp: bind_simps)

lemma sanitizeSubmission_Inr:
  assumes "sanitizeSubmission ns now b = Inr s"
  shows "\<exists>d ps. bind (get_prop b ''date'') (pick ns) = Inr d
    \<and> date s = js_or d (format_DD_MM_YYYY now)
    \<and> bind (get_prop b ''city'') (pick ns) = Inr (city s)
    \<and> bind (get_prop b ''club'') (pick ns) = Inr (club s)
    \<and> bind (get_prop b ''contacts'') (pick ns) = Inr (contacts s)
    \<and> bind (get_prop b ''coach'') (pick ns) = Inr (coach s)
    \<and> bind (get_prop b ''judge'') (pick ns) = Inr (judge s)
    \<and> bind (get_prop b ''judgeCategory'') (pick ns) = Inr (judgeCategory s)
    \<and> get_prop b ''participants'' = Inr ps
    \<and> (case ps of JArr xs \<Rightarrow> sequence (map (sanitizeParticipant ns) (enumerate 0 xs))
         | _ \<Rightarrow> Inr []) = Inr (participants s)"
  using assms unfolding sanitizeSubmission_def
  by (auto dest!: bind_Inr simp: bind_simps)

lemma sanitizeParticipants_idx:
  "sequence (map (sanitizeParticipant ns) (enumerate n xs)) = Inr ps
     \<Longrightarrow> map idx ps = map Suc [n..<n + length xs]"
proof (induction xs arbitrary: n ps)
  case Nil
  then show ?case by simp
next
  case (Cons x xs)
  from Cons.prems obtain q qs where q: "sanitizeParticipant ns (n, x) = Inr q"
    and qs: "sequence (map (sanitizeParticipant ns) (enumerate (Suc n) xs)) = Inr qs"
    and ps: "ps = q # qs"
    by (auto dest!: bind_Inr)
  have "idx q = Suc n" using sanitizeParticipant_Inr [OF q] by simp
  moreover have "[n..<n + length (x # xs)] = n # [Suc n..<Suc n + length xs]"
    by (subst upt_rec) simp
  ultimately show ?case using Cons.IH [OF qs] ps by simp
qed

lemma sanitizeSubmission_idx:
  assumes "sanitizeSubmission ns now b = Inr s"
  shows "map idx (participants s) = [1..<Suc (length (participants s))]"
proof -
  from sanitizeSubmission_Inr [OF assms] obtain ps where
    ps: "(case ps of JArr xs \<Rightarrow> sequence (map (sanitizeParticipant ns) (enumerate 0 xs))
         | _ \<Rightarrow> Inr []) = Inr (participants s)"
    by blast
  show ?thesis
  proof (cases "\<exists>xs. ps = JArr xs")
    case True
    then obtain xs where xs: "ps = JArr xs" by blast
    then have sq: "sequence (map (sanitizeParticipant ns) (enumerate 0 xs)) = Inr (participants s)"
      using ps by simp
    have "length (participants s) = length xs" using sequence_Inr [OF sq] by simp
    then show ?thesis using sanitizeParticipants_idx [OF sq] by (simp add: map_Suc_upt)
  next
    case False
    then have "participants s = []" using ps by (cases ps) auto
    then show ?thesis by simp
  qed
qed

lemma sanitizeSubmission_participants:
  assumes "sanitizeSubmission ns now b = Inr s" and "get_prop b ''participants'' = Inr (JArr xs)"
  shows "length (participants s) = length xs
    \<and> (\<forall>i<length xs. sanitizeParticipant ns (i, xs ! i) = Inr (participants s ! i))"
proof -
  from sanitizeSubmission_Inr [OF assms(1)] assms(2)
  have sq: "sequence (map (sanitizeParticipant ns) (enumerate 0 xs)) = Inr (participants s)"
    by auto
  show ?thesis using sequence_Inr [OF sq] by (auto simp: nth_enumerate_eq)
qed

lemma sanitizeSubmission_no_array:
  assumes "sanitizeSubmission ns now b = Inr s" and "get_prop b ''participants'' = Inr v"
    and "\<forall>xs. v \<noteq> JArr xs"
  shows "participants s = []"
  using sanitizeSubmission_Inr [OF assms(1)] assms(2,3) by (cases v) auto

lemma pick_JStr: "pick ns (JStr x) = Inr (trim x)"
  by (simp add: pick_def bind_def)

lemma pick_absent: "pick ns JUndefined = Inr []" "pick ns JNull = Inr []"
  by (simp_all add: pick_def)

subsection \<open>The roster log\<close>

lemma map_of_put_sheet: "map_of (put_sheet n ws wb) n = Some ws"
  by (induction wb) auto

lemma getWorksheet_put_sheet: "getWorksheet (put_sheet n ws wb) n = Some ws"
  by (simp add: getWorksheet_def map_of_put_sheet)

lemma addRow_columns: "columns (addRow obj ws) = columns ws"
  by (simp add: addRow_def)

text \<open>
  On a worksheet that has the keys, as the one that \<^verbatim>\<open>ensureWorkbook\<close> builds has
  before it is written, the calls of \<^verbatim>\<open>addRow\<close> in \<^verbatim>\<open>appendToExcel\<close> would add the
  rows that the submission and its participants describe.
\<close>

lemma addRow_submission_only:
  assumes "columns ws = log_columns"
  shows "rows (addRow (submission_cells ts p) ws) = rows ws @
     [[Text ts, Text (date p), Text (city p), Text (club p), Text (contacts p),
       Text (coach p), Text (judge p), Text (judgeCategory p),
       Blank, Blank, Blank, Blank, Blank, Blank]]"
  using assms by (simp add: addRow_def log_columns_def submission_cells_def)

lemma addRow_participant:
  assumes "columns ws = log_columns"
  shows "rows (addRow (submission_cells ts p @ participant_cells q) ws) = rows ws @
     [[Text ts, Text (date p), Text (city p), Text (club p), Text (contacts p),
       Text (coach p), Text (judge p), Text (judgeCategory p),
       Number (idx q), Text (name q), Text (birthYear q), Text (hasRank q),
       Text (performingRank q), Text (medicalVisa q)]]"
  using assms by (simp add: addRow_def log_columns_def submission_cells_def participant_cells_def)

lemma foldl_addRow:
  assumes "columns ws = log_columns"
  shows "columns (foldl (\<lambda>w q. addRow (submission_cells ts p @ participant_cells q) w) ws qs)
           = log_columns
       \<and> rows (foldl (\<lambda>w q. addRow (submission_cells ts p @ participant_cells q) w) ws qs)
           = rows ws @ map (\<lambda>q.
      [Text ts, Text (date p), Text (city p), Text (club p), Text (contacts p),
       Text (coach p), Text (judge p), Text (judgeCategory p),
       Number (idx q), Text (name q), Text (birthYear q), Text (hasRank q),
       Text (performingRank q), Text (medicalVisa q)]) qs"
  using assms
proof (induction qs arbitrary: ws)
  case Nil
  then show ?case by simp
next
  case (Cons q qs)
  let ?w = "addRow (submission_cells ts p @ participant_cells q) ws"
  have c: "columns ?w = log_columns" using Cons.prems by (simp add: addRow_columns)
  show ?case
    using Cons.IH [OF c] addRow_participant [OF Cons.prems, of ts p q] by simp
qed

lemma appendToExcel_opens_ensureLog:
  "(if f \<noteq> None then readFile f else readFile (ensureWorkbook f)) = readFile (ensureLog f)"
  by (simp add: ensureLog_def)

lemma ensureWorkbook_overwrites: "log_rows (ensureWorkbook f) = []"
  by (simp add: ensureWorkbook_def writeFile_def log_rows_def getWorksheet_def)

text \<open>On a worksheet without keys they add rows without a cell.\<close>

lemma addRow_no_keys:
  assumes "\<forall>c\<in>set (columns w). key c = None"
  shows "rows (addRow obj w) = rows w @ [replicate (length (columns w)) Blank]"
proof -
  have "map (\<lambda>c. case key c of
                     None \<Rightarrow> Blank
                   | Some k \<Rightarrow> (case map_of obj k of None \<Rightarrow> Blank | Some v \<Rightarrow> v))
           (columns w) = map (\<lambda>c. Blank) (columns w)"
    using assms by (intro map_cong) auto
  then show ?thesis by (simp add: addRow_def map_replicate_const)
qed

lemma foldl_addRow_no_keys:
  assumes "\<forall>c\<in>set (columns w). key c = None"
  shows "columns (foldl (\<lambda>w q. addRow (g q) w) w qs) = columns w
       \<and> rows (foldl (\<lambda>w q. addRow (g q) w) w qs)
           = rows w @ replicate (length qs) (replicate (length (columns w)) Blank)"
  using assms
proof (induction qs arbitrary: w)
  case Nil
  then show ?case by simp
next
  case (Cons q qs)
  let ?w = "addRow (g q) w"
  have c: "columns ?w = columns w" by (rule addRow_columns)
  then have k: "\<forall>c\<in>set (columns ?w). key c = None" using Cons.prems by simp
  show ?case
    using Cons.IH [OF k] addRow_no_keys [OF Cons.prems, of "g q"] c
    by (simp add: replicate_app_Cons_same)
qed

lemma forget_keys_simps:
  "rows (forget_keys ws) = rows ws"
  "length (columns (forget_keys ws)) = length (columns ws)"
  "\<forall>c\<in>set (columns (forget_keys ws)). key c = None"
  by (auto simp: forget_keys_def)

lemma not_has_cell_blank: "\<not> has_cell (replicate n Blank)"
  by (simp add: has_cell_def list_ex_iff)

lemma filter_has_cell_blank_rows:
  "filter has_cell (rs @ replicate k (replicate n Blank)) = filter has_cell rs"
  by (simp add: not_has_cell_blank)

lemma append_rows_no_keys:
  assumes "\<forall>c\<in>set (columns ws). key c = None"
  shows "filter has_cell
           (rows (if length ps = 0 then addRow a ws else foldl (\<lambda>w q. addRow (g q) w) ws ps))
         = filter has_cell (rows ws)"
proof (cases "length ps = 0")
  case True
  have "rows (addRow a ws) = rows ws @ replicate 1 (replicate (length (columns ws)) Blank)"
    using addRow_no_keys [OF assms, of a] by simp
  then have "filter has_cell (rows (addRow a ws)) = filter has_cell (rows ws)"
    by (simp only: filter_has_cell_blank_rows)
  then show ?thesis using True by simp
next
  case False
  have "rows (foldl (\<lambda>w q. addRow (g q) w) ws ps)
          = rows ws @ replicate (length ps) (replicate (length (columns ws)) Blank)"
    using foldl_addRow_no_keys [OF assms, of g ps] by simp
  then have "filter has_cell (rows (foldl (\<lambda>w q. addRow (g q) w) ws ps))
      = filter has_cell (rows ws)"
    by (simp only: filter_has_cell_blank_rows)
  then show ?thesis using False by simp
qed

lemma log_rows_writeFile:
  "log_rows (writeFile wb) =
     (case getWorksheet wb ''Submissions'' of None \<Rightarrow> [] | Some ws \<Rightarrow> filter has_cell (rows ws))"
  by (simp add: log_rows_def writeFile_def getWorksheet_def map_of_map split: option.splits)

text \<open>
  Whatever the file holds and whatever the submission, \<^verbatim>\<open>appendToExcel\<close> returns and
  the file has the rows it had: the worksheet it reads has no column key, the rows it
  adds have no cell, and they are not written.
\<close>

lemma appendToExcel_adds_nothing:
  "\<exists>f'. appendToExcel now p f = Inr f' \<and> log_rows f' = filter has_cell (log_rows f)"
proof -
  define wb0 where "wb0 =
    (case f of None \<Rightarrow> [(''Submissions'', \<lparr>columns = log_columns, rows = []\<rparr>)] | Some b \<Rightarrow> b)"
  define wb where "wb = map (\<lambda>(n, ws). (n, forget_keys ws)) wb0"
  have rd: "(if f \<noteq> None then readFile f else readFile (ensureWorkbook f)) = Inr wb"
    by (cases f) (simp_all add: wb_def wb0_def readFile_def ensureWorkbook_def writeFile_def)
  have lr: "log_rows f =
      (case getWorksheet wb0 ''Submissions'' of None \<Rightarrow> [] | Some ws \<Rightarrow> rows ws)"
    by (cases f) (simp_all add: wb0_def log_rows_def getWorksheet_def)
  have gw: "getWorksheet wb ''Submissions'' =
      map_option forget_keys (getWorksheet wb0 ''Submissions'')"
    by (simp add: getWorksheet_def wb_def map_of_map)
  let ?ts = "format_timestamp now"
  let ?new = "\<lambda>ws. if length (participants p) = 0
              then addRow (submission_cells ?ts p) ws
              else foldl (\<lambda>w q. addRow (submission_cells ?ts p @ participant_cells q) w)
                     ws (participants p)"
  show ?thesis
  proof (cases "getWorksheet wb0 ''Submissions''")
    case None
    let ?e = "\<lparr>columns = [], rows = []\<rparr>"
    have res: "appendToExcel now p f =
        Inr (writeFile (put_sheet ''Submissions'' (?new ?e) (wb @ [(''Submissions'', ?e)])))"
      unfolding appendToExcel_def rd
      by (simp add: bind_def gw None addWorksheet_def Let_def)
    have "filter has_cell (rows (?new ?e)) = filter has_cell (rows ?e)"
      by (rule append_rows_no_keys) simp
    then show ?thesis
      unfolding res by (simp add: log_rows_writeFile getWorksheet_put_sheet lr None)
  next
    case (Some ws0)
    let ?ws = "forget_keys ws0"
    have res: "appendToExcel now p f = Inr (writeFile (put_sheet ''Submissions'' (?new ?ws) wb))"
      unfolding appendToExcel_def rd
      by (simp add: bind_def gw Some Let_def)
    have "filter has_cell (rows (?new ?ws)) = filter has_cell (rows ?ws)"
      by (rule append_rows_no_keys) (rule forget_keys_simps(3))
    then show ?thesis
      unfolding res
      by (simp add: log_rows_writeFile getWorksheet_put_sheet lr Some forget_keys_simps(1))
  qed
qed

lemma has_cell_example_log: "filter has_cell (log_rows example_log) = log_rows example_log"
  by (simp add: example_log_def log_rows_def getWorksheet_def has_cell_def)

subsection \<open>The document\<close>

lemma js_or_empty: "js_or x [] = x"
  by (simp add: js_or_def)

lemma participant_rows_some:
  "map participant_row (enumerate n (map Some ps)) =
     map (\<lambda>q. [cell (nat_to_String (idx q)) 900, cell (name q) 3500, cell (birthYear q) 1400,
               cell (hasRank q) 1700, cell (performingRank q) 1900, cell (medicalVisa q) 1500]) ps"
  by (induction ps arbitrary: n) (simp_all add: participant_row_def js_or_empty)

lemma replicate_8: "replicate 8 x = [x, x, x, x, x, x, x, x]"
  by (simp add: numeral_eq_Suc)

lemma nat_to_String_1_to_8:
  "nat_to_String 1 = ascii ''1''" "nat_to_String 2 = ascii ''2''"
  "nat_to_String 3 = ascii ''3''" "nat_to_String 4 = ascii ''4''"
  "nat_to_String 5 = ascii ''5''" "nat_to_String 6 = ascii ''6''"
  "nat_to_String 7 = ascii ''7''" "nat_to_String 8 = ascii ''8''"
  by (simp_all add: nat_to_String_1 digit_def ascii_def)

lemma participant_rows_none:
  "map participant_row (enumerate 0 (replicate 8 None)) =
     map (\<lambda>t. [cell t 900, cell [] 3500, cell [] 1400, cell [] 1700, cell [] 1900, cell [] 1500])
       [ascii ''1'', ascii ''2'', ascii ''3'', ascii ''4'',
        ascii ''5'', ascii ''6'', ascii ''7'', ascii ''8'']"
proof -
  have "Suc 0 = 1" "Suc 1 = 2" "Suc 2 = 3" "Suc 3 = 4" "Suc 4 = 5" "Suc 5 = 6" "Suc 6 = 7"
    "Suc 7 = 8"
    by simp_all
  then show ?thesis
    unfolding replicate_8
    by (simp add: participant_row_def nat_to_String_1_to_8 del: One_nat_def)
qed

lemma data_rows_buildDocx: "data_rows (buildDocx d) = participant_rows d"
  by (simp add: data_rows_def participant_table_def buildDocx_def)

lemma data_rows_result:
  "data_rows (buildDocx d) =
     (if participants d = []
      then map (\<lambda>t. [cell t 900, cell [] 3500, cell [] 1400, cell [] 1700, cell [] 1900,
                     cell [] 1500])
             [ascii ''1'', ascii ''2'', ascii ''3'', ascii ''4'',
              ascii ''5'', ascii ''6'', ascii ''7'', ascii ''8'']
      else map (\<lambda>q. [cell (nat_to_String (idx q)) 900, cell (name q) 3500,
                     cell (birthYear q) 1400, cell (hasRank q) 1700,
                     cell (performingRank q) 1900, cell (medicalVisa q) 1500])
             (participants d))"
  unfolding data_rows_buildDocx participant_rows_def
  by (simp add: participant_rows_some participant_rows_none)

lemma date_line_buildDocx:
  "date_line (buildDocx d) =
     [0x0433, 0x2E, 0x20, 0x041C, 0x044B, 0x0442, 0x0438, 0x0449, 0x0438, 0x2C, 0x20] @ date d"
  by (simp add: date_line_def buildDocx_def)

section \<open>The claims\<close>

text \<open>
  Claim C1. The normalizer is claimed never to fail, in particular on participant entries
  that are null. The callback of \<^verbatim>\<open>map\<close> reads \<^verbatim>\<open>p.name\<close> with no guard on
  \<open>p\<close>: a null entry of the participants array makes it throw a TypeError.
\<close>

theorem sanitizeSubmission_null_participant:
  "sanitizeSubmission ns now (JObj [(''participants'', JArr [JNull])]) = Inl TypeError"
  by (simp add: sanitizeSubmission_def sanitizeParticipant_def bind_def pick_def)

text \<open>
  The same holds for every request whose participants array has a null entry; an object
  with an own \<^verbatim>\<open>toString\<close> property as a field makes \<^verbatim>\<open>String(v)\<close> throw as well.
  A participants field that is not an array and entries that are not objects are
  normalized.
\<close>

lemma sanitizeParticipant_null: "sanitizeParticipant ns (i, JNull) = Inl TypeError"
  by (simp add: sanitizeParticipant_def bind_def)

lemma sanitizeSubmission_null_entry:
  assumes "get_prop b ''participants'' = Inr (JArr xs)" and "JNull \<in> set xs"
  shows "sanitizeSubmission ns now b \<noteq> Inr s"
proof
  assume san: "sanitizeSubmission ns now b = Inr s"
  from assms(2) obtain i where i: "i < length xs" "xs ! i = JNull"
    by (auto simp: in_set_conv_nth)
  from sanitizeSubmission_participants [OF san assms(1)] i
  have "sanitizeParticipant ns (i, JNull) = Inr (participants s ! i)" by auto
  then show False by (simp add: sanitizeParticipant_null)
qed

lemma sanitizeSubmission_toString_field:
  "sanitizeSubmission ns now (JObj [(''city'', JObj [(''toString'', v)])]) = Inl TypeError"
  by (simp add: sanitizeSubmission_def bind_def pick_def)

lemma sanitizeSubmission_participants_not_array:
  "sanitizeSubmission ns now (JObj [(''participants'', JStr x)]) =
     Inr \<lparr>date = format_DD_MM_YYYY now, city = [], club = [], contacts = [], coach = [],
          judge = [], judgeCategory = [], participants = []\<rparr>"
  by (simp add: sanitizeSubmission_def bind_def pick_def js_or_def)

lemma sanitizeSubmission_participant_not_object:
  "sanitizeSubmission ns now (JObj [(''participants'', JArr [JNum n, JStr x, JBool t])]) =
     Inr \<lparr>date = format_DD_MM_YYYY now, city = [], club = [], contacts = [], coach = [],
          judge = [], judgeCategory = [],
          participants =
            [\<lparr>idx = 1, name = [], birthYear = [], hasRank = [], performingRank = [],
              medicalVisa = []\<rparr>,
             \<lparr>idx = 2, name = [], birthYear = [], hasRank = [], performingRank = [],
              medicalVisa = []\<rparr>,
             \<lparr>idx = 3, name = [], birthYear = [], hasRank = [], performingRank = [],
              medicalVisa = []\<rparr>]\<rparr>"
  by (simp add: sanitizeSubmission_def sanitizeParticipant_def bind_def pick_def js_or_def)

text \<open>
  Claim C2. The log is claimed to gain one row per participant, or one row when there is
  none. \<^verbatim>\<open>appendToExcel\<close> gives the keys \<^verbatim>\<open>ts\<close>, \<^verbatim>\<open>date\<close>, ... only to the columns of
  the workbook that \<^verbatim>\<open>ensureWorkbook\<close> builds; the workbook it adds rows to is read from
  the file and its columns have no key, so the rows have no cell and the file is written
  with the rows it had. A submission with one participant leaves an absent log with no
  data row and a log of one row with that one row; a submission without participants
  leaves an absent log with no data row.
\<close>

theorem appendToExcel_gains_no_row:
  "length (participants example_submission) = 1
   \<and> \<not> isl (appendToExcel example_clock example_submission None)
   \<and> log_rows (projr (appendToExcel example_clock example_submission None)) = []
   \<and> \<not> isl (appendToExcel example_clock example_submission example_log)
   \<and> log_rows (projr (appendToExcel example_clock example_submission example_log))
       = log_rows example_log
   \<and> length (log_rows example_log) = 1
   \<and> \<not> isl (appendToExcel example_clock (example_submission\<lparr>participants := []\<rparr>) None)
   \<and> log_rows (projr (appendToExcel example_clock
         (example_submission\<lparr>participants := []\<rparr>) None)) = []"
proof -
  obtain f3 where f3:
      "appendToExcel example_clock (example_submission\<lparr>participants := []\<rparr>) None = Inr f3"
      "log_rows f3 = filter has_cell (log_rows None)"
    using appendToExcel_adds_nothing
      [of example_clock "example_submission\<lparr>participants := []\<rparr>" None]
    by blast
  obtain f1 where f1: "appendToExcel example_clock example_submission None = Inr f1"
      "log_rows f1 = filter has_cell (log_rows None)"
    using appendToExcel_adds_nothing [of example_clock example_submission None] by blast
  obtain f2 where f2: "appendToExcel example_clock example_submission example_log = Inr f2"
      "log_rows f2 = filter has_cell (log_rows example_log)"
    using appendToExcel_adds_nothing [of example_clock example_submission example_log] by blast
  have n: "length (participants example_submission) = 1"
    by (simp add: example_submission_def)
  have l: "length (log_rows example_log) = 1"
    by (simp add: example_log_def log_rows_def getWorksheet_def)
  have e: "log_rows None = []" by (simp add: log_rows_def)
  show ?thesis
    using f1 f2 f3 n l by (simp add: e has_cell_example_log)
qed

text \<open>
  Claim C5. Ensuring the log, that is calling \<^verbatim>\<open>ensureWorkbook\<close> when and only when the
  file does not exist, creates a log with the fourteen column headers and no data row
  when the log is absent, leaves an existing log as it is, and is idempotent.
\<close>

theorem ensureLog_creates_once:
  "ensureLog None = Some [(''Submissions'', \<lparr>columns = log_columns, rows = []\<rparr>)]
   \<and> log_header (ensureLog None) =
       [''Timestamp'', ''Date (on form)'', ''City'', ''Club/School'', ''Contacts'',
        ''Coach (FIO)'', ''Judge (FIO)'', ''Judge Category'', ''Participant #'',
        ''Participant Name'', ''Birth Year'', ''Has Rank'', ''Performing Rank'',
        ''Medical Visa'']
   \<and> length (log_header (ensureLog None)) = 14
   \<and> log_rows (ensureLog None) = []
   \<and> (f \<noteq> None \<longrightarrow> ensureLog f = f)
   \<and> ensureLog (ensureLog f) = ensureLog f"
  by (simp add: ensureLog_def ensureWorkbook_def writeFile_def log_header_def log_rows_def
      getWorksheet_def log_columns_def)

theorem ensureLog_creates_once_witness:
  "example_log \<noteq> None \<and> ensureLog example_log = example_log
   \<and> log_rows (ensureLog example_log) = log_rows example_log
   \<and> length (log_rows (ensureLog example_log)) = 1"
proof -
  have ne: "example_log \<noteq> None" by (simp add: example_log_def)
  then have "ensureLog example_log = example_log"
    using ensureLog_creates_once [of example_log] by blast
  then show ?thesis using ne by (simp add: example_log_def log_rows_def getWorksheet_def)
qed

lemma sanitize_example_body:
  "sanitizeSubmission nat_to_String example_clock example_body = Inr example_submission"
  by (simp add: sanitizeSubmission_def sanitizeParticipant_def example_body_def
      example_participant_def example_submission_def bind_def pick_def js_or_def
      format_DD_MM_YYYY_def example_clock_def pad_start_2 pad_start_4 digit_def ascii_def
      trim_def trim_start_def trim_end_def is_space_def)




lemma upt_1_9: "[1..<9] = [1, 2, 3, 4, 5, 6, 7, 8 :: nat]"
  by code_simp

lemma buildDocx_ordinal_column:
  "map (\<lambda>r. cell_text (r ! 0)) (data_rows (buildDocx d)) =
     map nat_to_String (if participants d = [] then [1..<9] else map idx (participants d))"
  unfolding data_rows_result upt_1_9
  by (simp add: comp_def cell_def nat_to_String_1_to_8 del: One_nat_def)

lemma sanitize_example_body_idx:
  "sanitizeSubmission nat_to_String example_clock example_body_idx =
     Inr \<lparr>date = ascii ''01.02.2026'', city = [], club = [], contacts = [], coach = [],
          judge = [], judgeCategory = [],
          participants =
            [\<lparr>idx = 1, name = ascii ''A'', birthYear = [], hasRank = [], performingRank = [],
              medicalVisa = []\<rparr>,
             \<lparr>idx = 2, name = [], birthYear = [], hasRank = [], performingRank = [],
              medicalVisa = []\<rparr>,
             \<lparr>idx = 3, name = [], birthYear = [], hasRank = [], performingRank = [],
              medicalVisa = []\<rparr>]\<rparr>"
  by code_simp

text \<open>
  Whenever the normalizer returns, the participants it returns are numbered 1, 2, ..., N
  in sequence order; when the request has an array of participants, N is its length and
  the participant at each position is the normalized entry of the request at that
  position. The rows of the document's participant table show these numbers in their
  first column (1 to 8 when there is no participant).
\<close>

lemma normalized_ordinals:
  assumes "sanitizeSubmission ns now b = Inr s"
  shows "map idx (participants s) = [1..<Suc (length (participants s))]
    \<and> (\<forall>xs. get_prop b ''participants'' = Inr (JArr xs) \<longrightarrow>
          length (participants s) = length xs \<and>
          (\<forall>i<length xs. sanitizeParticipant ns (i, xs ! i) = Inr (participants s ! i) \<and>
                          idx (participants s ! i) = i + 1))
    \<and> map (\<lambda>r. cell_text (r ! 0)) (data_rows (buildDocx s)) =
          map nat_to_String
            (if participants s = [] then [1..<9] else [1..<Suc (length (participants s))])"
proof -
  note ix = sanitizeSubmission_idx [OF assms]
  have pos: "\<forall>xs. get_prop b ''participants'' = Inr (JArr xs) \<longrightarrow>
          length (participants s) = length xs \<and>
          (\<forall>i<length xs. sanitizeParticipant ns (i, xs ! i) = Inr (participants s ! i) \<and>
                          idx (participants s ! i) = i + 1)"
  proof (intro allI impI)
    fix xs
    assume g: "get_prop b ''participants'' = Inr (JArr xs)"
    note p = sanitizeSubmission_participants [OF assms g]
    have "idx (participants s ! i) = i + 1" if "i < length xs" for i
      using p that sanitizeParticipant_Inr [of ns i "xs ! i" "participants s ! i"] by simp
    then show "length (participants s) = length xs \<and>
          (\<forall>i<length xs. sanitizeParticipant ns (i, xs ! i) = Inr (participants s ! i) \<and>
                          idx (participants s ! i) = i + 1)"
      using p by simp
  qed
  have dc: "map (\<lambda>r. cell_text (r ! 0)) (data_rows (buildDocx s)) =
          map nat_to_String
            (if participants s = [] then [1..<9] else [1..<Suc (length (participants s))])"
    using buildDocx_ordinal_column [of s] by (simp only: ix [symmetric])
  show ?thesis using ix pos dc by blast
qed

text \<open>
  Claim C4. The ordinals are claimed to be the positions in the request, whatever
  \<^verbatim>\<open>idx\<close> the request carries, in the normalized participants, in the rows of the log
  and in the document. For a request of three participants, two of them with an
  \<^verbatim>\<open>idx\<close> of their own, the normalizer gives 1, 2, 3 and the document shows 1, 2, 3;
  but the log gains no row, for the reason given at C2, so no ordinal is in the log.
\<close>

theorem ordinals_not_logged:
  "\<not> isl (sanitizeSubmission nat_to_String example_clock example_body_idx)
   \<and> map idx (participants
        (projr (sanitizeSubmission nat_to_String example_clock example_body_idx))) = [1, 2, 3]
   \<and> map (cell_text \<circ> hd) (data_rows (buildDocx
        (projr (sanitizeSubmission nat_to_String example_clock example_body_idx))))
       = [ascii ''1'', ascii ''2'', ascii ''3'']
   \<and> \<not> isl (appendToExcel example_clock
        (projr (sanitizeSubmission nat_to_String example_clock example_body_idx)) None)
   \<and> log_rows (projr (appendToExcel example_clock
        (projr (sanitizeSubmission nat_to_String example_clock example_body_idx)) None)) = []"
proof -
  define s0 where "s0 = projr (sanitizeSubmission nat_to_String example_clock example_body_idx)"
  have san: "sanitizeSubmission nat_to_String example_clock example_body_idx = Inr s0"
    unfolding s0_def by (simp add: sanitize_example_body_idx)
  have ps: "participants s0 \<noteq> []" "[1..<Suc (length (participants s0))] = [1, 2, 3]"
    unfolding s0_def by (simp_all add: sanitize_example_body_idx upt_conv_Cons)
  have three: "map nat_to_String [1, 2, 3] = [ascii ''1'', ascii ''2'', ascii ''3'']"
    by (simp add: nat_to_String_1_to_8 del: One_nat_def)
  note t = normalized_ordinals [OF san]
  have a: "map idx (participants s0) = [1, 2, 3]"
    using t [THEN conjunct1] ps(2) by (simp only:)
  have "map (\<lambda>r. cell_text (r ! 0)) (data_rows (buildDocx s0)) = map nat_to_String [1, 2, 3]"
    using t [THEN conjunct2, THEN conjunct2] ps by (simp only: if_False)
  moreover have "map (\<lambda>r. cell_text (r ! 0)) (data_rows (buildDocx s0))
      = map (cell_text \<circ> hd) (data_rows (buildDocx s0))"
    by (simp add: data_rows_result hd_conv_nth)
  ultimately have c: "map (cell_text \<circ> hd) (data_rows (buildDocx s0))
      = [ascii ''1'', ascii ''2'', ascii ''3'']"
    by (simp only: three)
  obtain f' where f: "appendToExcel example_clock s0 None = Inr f'"
      "log_rows f' = filter has_cell (log_rows None)"
    using appendToExcel_adds_nothing [of example_clock s0 None] by blast
  have e: "log_rows None = []" by (simp add: log_rows_def)
  have d: "\<not> isl (appendToExcel example_clock s0 None)
      \<and> log_rows (projr (appendToExcel example_clock s0 None)) = []"
    using f by (simp add: e)
  have "\<not> isl (sanitizeSubmission nat_to_String example_clock example_body_idx)"
    unfolding san by simp
  then show ?thesis using a c d unfolding s0_def [symmetric] by blast
qed

text \<open>
  Whenever the normalizer returns, the date of the submission is the date field of the
  request, coerced to a string and trimmed, unless that is empty: then it is the current
  date as two digits of the day, a dot, two digits of the month, a dot, and four digits
  of the year. An absent or null date field is such an empty one; a string is used
  trimmed when its trimmed form is not empty. The date follows the place name on the
  date line of the document.
\<close>

lemma normalized_date:
  assumes "sanitizeSubmission ns now b = Inr s" and "valid_clock now"
  shows "(\<exists>t. bind (get_prop b ''date'') (pick ns) = Inr t \<and>
            date s = (if t = [] then format_DD_MM_YYYY now else t))
    \<and> (get_prop b ''date'' = Inr JUndefined \<or> get_prop b ''date'' = Inr JNull \<longrightarrow>
          date s = format_DD_MM_YYYY now)
    \<and> (\<forall>x. get_prop b ''date'' = Inr (JStr x) \<longrightarrow>
          date s = (if trim x = [] then format_DD_MM_YYYY now else trim x))
    \<and> format_DD_MM_YYYY now =
         [digit (clk_day now div 10), digit (clk_day now mod 10), 0x2E,
          digit (clk_month now div 10), digit (clk_month now mod 10), 0x2E,
          digit (clk_year now div 1000), digit (clk_year now div 100 mod 10),
          digit (clk_year now div 10 mod 10), digit (clk_year now mod 10)]
    \<and> date_line (buildDocx s) =
         [0x0433, 0x2E, 0x20, 0x041C, 0x044B, 0x0442, 0x0438, 0x0449, 0x0438, 0x2C, 0x20] @
         date s"
proof -
  from sanitizeSubmission_Inr [OF assms(1)] obtain t where
    t: "bind (get_prop b ''date'') (pick ns) = Inr t"
    and d: "date s = js_or t (format_DD_MM_YYYY now)"
    by blast
  have g: "\<exists>t. bind (get_prop b ''date'') (pick ns) = Inr t \<and>
            date s = (if t = [] then format_DD_MM_YYYY now else t)"
    using t d by (auto simp: js_or_def)
  have absent: "get_prop b ''date'' = Inr JUndefined \<or> get_prop b ''date'' = Inr JNull \<longrightarrow>
          date s = format_DD_MM_YYYY now"
    using t d by (auto simp: bind_simps pick_absent js_or_def)
  have str: "\<forall>x. get_prop b ''date'' = Inr (JStr x) \<longrightarrow>
          date s = (if trim x = [] then format_DD_MM_YYYY now else trim x)"
    using t d by (auto simp: bind_simps pick_JStr js_or_def)
  note shape = format_DD_MM_YYYY_shape [OF assms(2)]
  note line = date_line_buildDocx [of s]
  show ?thesis using g absent str shape line by blast
qed

text \<open>
  Claim C6. The date that the normalizer gives to a request without a date is claimed to
  be the current date as DD.MM.YYYY and to be shown in the form-date column of the log
  row and on the date line of the document. For a request without a date on 12 October
  2025 the normalized date is \<^verbatim>\<open>12.10.2025\<close> and the date line of the document ends
  with it; but the log gains no row, for the reason given at C2, so no row of the log
  shows the date.
\<close>

theorem date_not_logged:
  "get_prop example_body ''date'' = Inr JUndefined
   \<and> sanitizeSubmission nat_to_String example_clock example_body = Inr example_submission
   \<and> date example_submission = ascii ''12.10.2025''
   \<and> date_line (buildDocx example_submission) =
        [0x0433, 0x2E, 0x20, 0x041C, 0x044B, 0x0442, 0x0438, 0x0449, 0x0438, 0x2C, 0x20] @
        ascii ''12.10.2025''
   \<and> \<not> isl (appendToExcel example_clock example_submission None)
   \<and> log_rows (projr (appendToExcel example_clock example_submission None)) = []"
proof -
  have g: "get_prop example_body ''date'' = Inr JUndefined"
    by (simp add: example_body_def)
  have d: "date example_submission = ascii ''12.10.2025''"
    by (simp add: example_submission_def)
  have l: "date_line (buildDocx example_submission) =
        [0x0433, 0x2E, 0x20, 0x041C, 0x044B, 0x0442, 0x0438, 0x0449, 0x0438, 0x2C, 0x20] @
        ascii ''12.10.2025''"
    using date_line_buildDocx [of example_submission] by (simp only: d)
  obtain f' where f: "appendToExcel example_clock example_submission None = Inr f'"
      "log_rows f' = filter has_cell (log_rows None)"
    using appendToExcel_adds_nothing [of example_clock example_submission None] by blast
  have e: "log_rows None = []" by (simp add: log_rows_def)
  have a: "\<not> isl (appendToExcel example_clock example_submission None)
      \<and> log_rows (projr (appendToExcel example_clock example_submission None)) = []"
    using f by (simp add: e)
  show ?thesis using g sanitize_example_body d l a by blast
qed

subsection \<open>The notification\<close>

lemma fileSafe_placeholder:
  "fileSafe [0x0417, 0x0430, 0x044F, 0x0432, 0x043A, 0x0430] =
     [0x0417, 0x0430, 0x044F, 0x0432, 0x043A, 0x0430]"
  by (simp add: fileSafe_def replace_unsafe_def collapse_spaces_def trim_def trim_start_def
      trim_end_def is_unsafe_def is_space_def)

lemma emailDocx_filename:
  "map filename (attachments (emailDocx fr rcpt p buf)) =
     [[0x0417, 0x0430, 0x044F, 0x0432, 0x043A, 0x0430, 0x5F] @
      fileSafe (if club p = [] then [0x0417, 0x0430, 0x044F, 0x0432, 0x043A, 0x0430]
                else club p) @
      ascii ''.docx'']"
  by (simp add: emailDocx_def Let_def js_or_def)

text \<open>
  Claim C8. The mail has one attachment; its file name is \<^verbatim>\<open>Zayavka_\<close> (in Cyrillic),
  the sanitised club name and \<^verbatim>\<open>.docx\<close>, the club name being replaced by the
  placeholder \<^verbatim>\<open>Zayavka\<close> (in Cyrillic, which sanitising leaves as it is) when it is
  empty. A club name that holds \<^verbatim>\<open>A/B:C\<close> gives a file name that holds
  \<^verbatim>\<open>A_B_C\<close> at its place, between the sanitised and trimmed forms of what precedes
  and follows it.
\<close>

theorem attachment_filename:
  "map filename (attachments (emailDocx fr rcpt p buf)) =
     [[0x0417, 0x0430, 0x044F, 0x0432, 0x043A, 0x0430, 0x5F] @
      fileSafe (if club p = [] then [0x0417, 0x0430, 0x044F, 0x0432, 0x043A, 0x0430]
                else club p) @
      ascii ''.docx'']
   \<and> (club p = [] \<longrightarrow>
        map filename (attachments (emailDocx fr rcpt p buf)) =
          [[0x0417, 0x0430, 0x044F, 0x0432, 0x043A, 0x0430, 0x5F,
            0x0417, 0x0430, 0x044F, 0x0432, 0x043A, 0x0430] @ ascii ''.docx''])
   \<and> (club p = u @ ascii ''A/B:C'' @ v \<longrightarrow>
        map filename (attachments (emailDocx fr rcpt p buf)) =
          [[0x0417, 0x0430, 0x044F, 0x0432, 0x043A, 0x0430, 0x5F] @
           trim_start (collapse_spaces (replace_unsafe u)) @ ascii ''A_B_C'' @
           trim_end (collapse_spaces (replace_unsafe v)) @ ascii ''.docx''])"
proof -
  note f = emailDocx_filename [of fr rcpt p buf]
  have blank: "club p = [] \<longrightarrow>
        map filename (attachments (emailDocx fr rcpt p buf)) =
          [[0x0417, 0x0430, 0x044F, 0x0432, 0x043A, 0x0430, 0x5F,
            0x0417, 0x0430, 0x044F, 0x0432, 0x043A, 0x0430] @ ascii ''.docx'']"
    unfolding f by (simp add: fileSafe_placeholder)
  have abc: "club p = u @ ascii ''A/B:C'' @ v \<longrightarrow>
        map filename (attachments (emailDocx fr rcpt p buf)) =
          [[0x0417, 0x0430, 0x044F, 0x0432, 0x043A, 0x0430, 0x5F] @
           trim_start (collapse_spaces (replace_unsafe u)) @ ascii ''A_B_C'' @
           trim_end (collapse_spaces (replace_unsafe v)) @ ascii ''.docx'']"
  proof
    assume c: "club p = u @ ascii ''A/B:C'' @ v"
    have n: "ascii ''A/B:C'' \<noteq> []" by (simp add: ascii_def)
    show "map filename (attachments (emailDocx fr rcpt p buf)) =
          [[0x0417, 0x0430, 0x044F, 0x0432, 0x043A, 0x0430, 0x5F] @
           trim_start (collapse_spaces (replace_unsafe u)) @ ascii ''A_B_C'' @
           trim_end (collapse_spaces (replace_unsafe v)) @ ascii ''.docx'']"
      unfolding f using fileSafe_ABC [of u v] c n by simp
  qed
  show ?thesis using f blank abc by blast
qed

theorem attachment_filename_witness:
  "club (example_submission\<lparr>club := ascii ''My  A/B:C  club''\<rparr>)
      = ascii ''My  '' @ ascii ''A/B:C'' @ ascii ''  club''
   \<and> map filename (attachments (emailDocx [] []
         (example_submission\<lparr>club := ascii ''My  A/B:C  club''\<rparr>) ())) =
       [[0x0417, 0x0430, 0x044F, 0x0432, 0x043A, 0x0430, 0x5F] @ ascii ''My A_B_C club.docx'']
   \<and> map filename (attachments (emailDocx [] [] example_submission ())) =
       [[0x0417, 0x0430, 0x044F, 0x0432, 0x043A, 0x0430, 0x5F,
         0x0417, 0x0432, 0x0435, 0x0437, 0x0434, 0x0430] @ ascii ''.docx'']"
proof -
  let ?p = "example_submission\<lparr>club := ascii ''My  A/B:C  club''\<rparr>"
  have c: "club ?p = ascii ''My  '' @ ascii ''A/B:C'' @ ascii ''  club''"
    by (simp add: ascii_def)
  note t = attachment_filename [of "[]" "[]" ?p "()" "ascii ''My  ''" "ascii ''  club''"]
  have "map filename (attachments (emailDocx [] [] ?p ())) =
          [[0x0417, 0x0430, 0x044F, 0x0432, 0x043A, 0x0430, 0x5F] @
           trim_start (collapse_spaces (replace_unsafe (ascii ''My  ''))) @ ascii ''A_B_C'' @
           trim_end (collapse_spaces (replace_unsafe (ascii ''  club''))) @ ascii ''.docx'']"
    using t [THEN conjunct2, THEN conjunct2] c by blast
  moreover have "trim_start (collapse_spaces (replace_unsafe (ascii ''My  ''))) = ascii ''My ''"
    by (simp add: trim_start_def collapse_spaces_def replace_unsafe_def ascii_def
        is_unsafe_def is_space_def)
  moreover have "trim_end (collapse_spaces (replace_unsafe (ascii ''  club''))) = ascii '' club''"
    by (simp add: trim_end_def collapse_spaces_def replace_unsafe_def ascii_def
        is_unsafe_def is_space_def)
  ultimately have a: "map filename (attachments (emailDocx [] [] ?p ())) =
       [[0x0417, 0x0430, 0x044F, 0x0432, 0x043A, 0x0430, 0x5F] @ ascii ''My A_B_C club.docx'']"
    by (simp add: ascii_def)
  have "fileSafe [0x0417, 0x0432, 0x0435, 0x0437, 0x0434, 0x0430] =
      [0x0417, 0x0432, 0x0435, 0x0437, 0x0434, 0x0430]"
    by (simp add: fileSafe_def replace_unsafe_def collapse_spaces_def trim_def trim_start_def
        trim_end_def is_unsafe_def is_space_def)
  then have b: "map filename (attachments (emailDocx [] [] example_submission ())) =
       [[0x0417, 0x0430, 0x044F, 0x0432, 0x043A, 0x0430, 0x5F,
         0x0417, 0x0432, 0x0435, 0x0437, 0x0434, 0x0430] @ ascii ''.docx'']"
    using attachment_filename [of "[]" "[]" example_submission "()", THEN conjunct1]
    by (simp add: example_submission_def)
  show ?thesis by (intro conjI c a b)
qed

text \<open>
  Claim C9. The subject of the mail is \<^verbatim>\<open>Zayavka: \<close> (in Cyrillic) and the club name,
  or a fixed placeholder when the club name is empty. The body is six lines in a fixed
  order: club, city, coach, contacts, judge, and the number of participants in decimal.
  An empty club, city, coach or contacts field is shown as a dash; the judge line joins
  judge and judge category with a comma and a space, leaves an empty one out, and shows
  a dash when both are empty.
\<close>

theorem email_subject_and_body:
  "subject (emailDocx fr rcpt p buf) =
     [0x0417, 0x0430, 0x044F, 0x0432, 0x043A, 0x0430, 0x3A, 0x20] @
     (if club p = []
      then [0x0431, 0x0435, 0x0437, 0x20, 0x043D, 0x0430, 0x0437, 0x0432, 0x0430, 0x043D,
            0x0438, 0x044F]
      else club p)
   \<and> text_body (emailDocx fr rcpt p buf) =
     [0x041A, 0x043B, 0x0443, 0x0431, 0x2F, 0x0448, 0x043A, 0x043E, 0x043B, 0x0430, 0x3A, 0x20] @
       (if club p = [] then ascii ''-'' else club p) @ [0x0A] @
     [0x0413, 0x043E, 0x0440, 0x043E, 0x0434, 0x3A, 0x20] @
       (if city p = [] then ascii ''-'' else city p) @ [0x0A] @
     [0x0422, 0x0440, 0x0435, 0x043D, 0x0435, 0x0440, 0x3A, 0x20] @
       (if coach p = [] then ascii ''-'' else coach p) @ [0x0A] @
     [0x041A, 0x043E, 0x043D, 0x0442, 0x0430, 0x043A, 0x0442, 0x044B, 0x3A, 0x20] @
       (if contacts p = [] then ascii ''-'' else contacts p) @ [0x0A] @
     [0x0421, 0x0443, 0x0434, 0x044C, 0x044F, 0x3A, 0x20] @
       (if judge p = [] \<and> judgeCategory p = [] then ascii ''-''
        else if judge p = [] then judgeCategory p
        else if judgeCategory p = [] then judge p
        else judge p @ ascii '', '' @ judgeCategory p) @ [0x0A] @
     [0x0423, 0x0447, 0x0430, 0x0441, 0x0442, 0x043D, 0x0438, 0x0446, 0x3A, 0x20] @
       nat_to_String (length (participants p))"
proof -
  have nz: "ascii '', '' \<noteq> []" by (simp add: ascii_def)
  have j: "js_or (join (ascii '', '') (filter (\<lambda>s. s \<noteq> []) [judge p, judgeCategory p]))
             (ascii ''-'') =
       (if judge p = [] \<and> judgeCategory p = [] then ascii ''-''
        else if judge p = [] then judgeCategory p
        else if judgeCategory p = [] then judge p
        else judge p @ ascii '', '' @ judgeCategory p)"
    using nz by (simp add: js_or_def)
  show ?thesis
    unfolding emailDocx_def Let_def j by (simp add: js_or_def)
qed

theorem email_subject_and_body_witness:
  "subject (emailDocx [] [] example_submission ()) =
     [0x0417, 0x0430, 0x044F, 0x0432, 0x043A, 0x0430, 0x3A, 0x20,
      0x0417, 0x0432, 0x0435, 0x0437, 0x0434, 0x0430]
   \<and> text_body (emailDocx [] [] example_submission ()) =
     [0x041A, 0x043B, 0x0443, 0x0431, 0x2F, 0x0448, 0x043A, 0x043E, 0x043B, 0x0430, 0x3A, 0x20,
      0x0417, 0x0432, 0x0435, 0x0437, 0x0434, 0x0430, 0x0A,
      0x0413, 0x043E, 0x0440, 0x043E, 0x0434, 0x3A, 0x20,
      0x041C, 0x044B, 0x0442, 0x0438, 0x0449, 0x0438, 0x0A,
      0x0422, 0x0440, 0x0435, 0x043D, 0x0435, 0x0440, 0x3A, 0x20,
      0x0418, 0x0432, 0x0430, 0x043D, 0x043E, 0x0432, 0x0430, 0x20, 0x0418, 0x2E, 0x0418, 0x2E,
      0x0A,
      0x041A, 0x043E, 0x043D, 0x0442, 0x0430, 0x043A, 0x0442, 0x044B, 0x3A, 0x20, 0x2D, 0x0A,
      0x0421, 0x0443, 0x0434, 0x044C, 0x044F, 0x3A, 0x20, 0x2D, 0x0A,
      0x0423, 0x0447, 0x0430, 0x0441, 0x0442, 0x043D, 0x0438, 0x0446, 0x3A, 0x20, 0x31]"
proof -
  have one: "nat_to_String (Suc 0) = [0x31]"
    using nat_to_String_1 [of "Suc 0"] by (simp add: digit_def)
  note t = email_subject_and_body [of "[]" "[]" example_submission "()"]
  have a: "subject (emailDocx [] [] example_submission ()) =
     [0x0417, 0x0430, 0x044F, 0x0432, 0x043A, 0x0430, 0x3A, 0x20,
      0x0417, 0x0432, 0x0435, 0x0437, 0x0434, 0x0430]"
    using t [THEN conjunct1] by (simp add: example_submission_def)
  have b: "text_body (emailDocx [] [] example_submission ()) =
     [0x041A, 0x043B, 0x0443, 0x0431, 0x2F, 0x0448, 0x043A, 0x043E, 0x043B, 0x0430, 0x3A, 0x20,
      0x0417, 0x0432, 0x0435, 0x0437, 0x0434, 0x0430, 0x0A,
      0x0413, 0x043E, 0x0440, 0x043E, 0x0434, 0x3A, 0x20,
      0x041C, 0x044B, 0x0442, 0x0438, 0x0449, 0x0438, 0x0A,
      0x0422, 0x0440, 0x0435, 0x043D, 0x0435, 0x0440, 0x3A, 0x20,
      0x0418, 0x0432, 0x0430, 0x043D, 0x043E, 0x0432, 0x0430, 0x20, 0x0418, 0x2E, 0x0418, 0x2E,
      0x0A,
      0x041A, 0x043E, 0x043D, 0x0442, 0x0430, 0x043A, 0x0442, 0x044B, 0x3A, 0x20, 0x2D, 0x0A,
      0x0421, 0x0443, 0x0434, 0x044C, 0x044F, 0x3A, 0x20, 0x2D, 0x0A,
      0x0423, 0x0447, 0x0430, 0x0441, 0x0442, 0x043D, 0x0438, 0x0446, 0x3A, 0x20, 0x31]"
    using t [THEN conjunct2] by (simp add: example_submission_def one ascii_def)
  show ?thesis by (intro conjI a b)
qed

end
